theory Spec2Isabelle
  imports
    Complex_Main
    "HOL-Library.Multiset"
    "HOL-Library.Sublist"
    "HOL-Library.Char_ord"
    "HOL-Library.List_Lexorder"
begin

section \<open>Task management\<close>

subsection \<open>Data model\<close>

text \<open>
  A task object as \<^verbatim>\<open>addTask\<close> builds it. \<^verbatim>\<open>id\<close> is the value of \<^verbatim>\<open>Date.now()\<close>
  (milliseconds, an integer); the text fields hold strings, as the task form supplies
  them; \<^verbatim>\<open>createdAt\<close> is the ISO text of the creation time.
\<close>

record task =
  task_id :: int
  title :: string
  description :: string
  category :: string
  priority :: string
  dueDate :: string
  dueTime :: string
  reminder :: string
  repeat :: string
  completed :: bool
  subtasks :: "string list"
  createdAt :: string

text \<open>
  The argument object of \<^verbatim>\<open>addTask\<close>. A property that the caller left out reads as
  \<^verbatim>\<open>undefined\<close> in the source; it is \<open>None\<close> here. The object may carry a
  \<^verbatim>\<open>completed\<close> property; \<^verbatim>\<open>addTask\<close> does not read it.
\<close>

record taskData =
  title_in :: string
  description_in :: "string option"
  category_in :: "string option"
  priority_in :: "string option"
  dueDate_in :: "string option"
  dueTime_in :: "string option"
  reminder_in :: "string option"
  repeat_in :: "string option"
  subtasks_in :: "string list option"
  completed_in :: "bool option"

text \<open>
  \<^verbatim>\<open>x || d\<close> on a string property: \<^verbatim>\<open>undefined\<close> and the empty string are falsy and
  give \<open>d\<close>, any other string is kept. An array is always truthy, so
  \<^verbatim>\<open>taskData.subtasks || []\<close> replaces only a missing property.
\<close>

definition or_string :: "string option \<Rightarrow> string \<Rightarrow> string" where
  "or_string x d = (case x of None \<Rightarrow> d | Some s \<Rightarrow> if s = [] then d else s)"

definition or_array :: "'a list option \<Rightarrow> 'a list \<Rightarrow> 'a list" where
  "or_array x d = (case x of None \<Rightarrow> d | Some xs \<Rightarrow> xs)"

text \<open>
  The manager: \<^verbatim>\<open>this.tasks\<close>, and the writes to the \<^verbatim>\<open>tasks\<close> key of localStorage.
  \<open>saved\<close> lists the collections handed to \<^verbatim>\<open>localStorage.setItem\<close>, the latest first,
  so that a call that writes nothing leaves it as it was.
\<close>

record task_manager =
  tasks :: "task list"
  saved :: "task list list"

definition saveTasks :: "task_manager \<Rightarrow> task_manager" where
  "saveTasks tm = tm\<lparr>saved := tasks tm # saved tm\<rparr>"

subsection \<open>Mutations\<close>

text \<open>
  \<^verbatim>\<open>addTask(taskData)\<close>. The two clock readings, \<^verbatim>\<open>Date.now()\<close> and
  \<^verbatim>\<open>new Date().toISOString()\<close>, are arguments of the model.
\<close>

definition addTask :: "int \<Rightarrow> string \<Rightarrow> taskData \<Rightarrow> task_manager \<Rightarrow> task \<times> task_manager" where
  "addTask now stamp d tm =
     (let t = \<lparr> task_id = now,
                title = title_in d,
                description = or_string (description_in d) [],
                category = or_string (category_in d) [],
                priority = or_string (priority_in d) ''medium'',
                dueDate = or_string (dueDate_in d) [],
                dueTime = or_string (dueTime_in d) [],
                reminder = or_string (reminder_in d) ''none'',
                repeat = or_string (repeat_in d) ''none'',
                completed = False,
                subtasks = or_array (subtasks_in d) [],
                createdAt = stamp \<rparr>
      in (t, saveTasks (tm\<lparr>tasks := tasks tm @ [t]\<rparr>)))"

definition deleteTask :: "int \<Rightarrow> task_manager \<Rightarrow> task_manager" where
  "deleteTask taskId tm = saveTasks (tm\<lparr>tasks := filter (\<lambda>t. task_id t \<noteq> taskId) (tasks tm)\<rparr>)"

text \<open>
  \<^verbatim>\<open>find\<close> returns the first task with the id, and the task is changed in place: the
  array then holds the changed object at the position of that first match.
\<close>

fun mutate_first :: "('a \<Rightarrow> bool) \<Rightarrow> ('a \<Rightarrow> 'a) \<Rightarrow> 'a list \<Rightarrow> 'a list" where
  "mutate_first p f [] = []"
| "mutate_first p f (x # xs) = (if p x then f x # xs else x # mutate_first p f xs)"

text \<open>
  \<^verbatim>\<open>Object.assign(task, updates)\<close> copies the properties of \<open>updates\<close> onto the task,
  in their order. \<open>updates\<close> is the list of the properties it has.
\<close>

datatype field_update =
    Set_id int
  | Set_title string
  | Set_description string
  | Set_category string
  | Set_priority string
  | Set_dueDate string
  | Set_dueTime string
  | Set_reminder string
  | Set_repeat string
  | Set_completed bool
  | Set_subtasks "string list"
  | Set_createdAt string

fun assign_field :: "task \<Rightarrow> field_update \<Rightarrow> task" where
  "assign_field t (Set_id v) = t\<lparr>task_id := v\<rparr>"
| "assign_field t (Set_title v) = t\<lparr>title := v\<rparr>"
| "assign_field t (Set_description v) = t\<lparr>description := v\<rparr>"
| "assign_field t (Set_category v) = t\<lparr>category := v\<rparr>"
| "assign_field t (Set_priority v) = t\<lparr>priority := v\<rparr>"
| "assign_field t (Set_dueDate v) = t\<lparr>dueDate := v\<rparr>"
| "assign_field t (Set_dueTime v) = t\<lparr>dueTime := v\<rparr>"
| "assign_field t (Set_reminder v) = t\<lparr>reminder := v\<rparr>"
| "assign_field t (Set_repeat v) = t\<lparr>repeat := v\<rparr>"
| "assign_field t (Set_completed v) = t\<lparr>completed := v\<rparr>"
| "assign_field t (Set_subtasks v) = t\<lparr>subtasks := v\<rparr>"
| "assign_field t (Set_createdAt v) = t\<lparr>createdAt := v\<rparr>"

definition Object_assign :: "task \<Rightarrow> field_update list \<Rightarrow> task" where
  "Object_assign t updates = foldl assign_field t updates"

text \<open>
  \<^verbatim>\<open>updateTask\<close> and \<^verbatim>\<open>toggleTask\<close> return the task they found (\<open>None\<close> is the source's
  \<^verbatim>\<open>undefined\<close>) and save only when they found one.
\<close>

definition updateTask :: "int \<Rightarrow> field_update list \<Rightarrow> task_manager \<Rightarrow> task option \<times> task_manager" where
  "updateTask taskId updates tm =
     (case List.find (\<lambda>t. task_id t = taskId) (tasks tm) of
        None \<Rightarrow> (None, tm)
      | Some task \<Rightarrow>
          (Some (Object_assign task updates),
           saveTasks (tm\<lparr>tasks := mutate_first (\<lambda>t. task_id t = taskId)
                                    (\<lambda>t. Object_assign t updates) (tasks tm)\<rparr>)))"

definition toggleTask :: "int \<Rightarrow> task_manager \<Rightarrow> task option \<times> task_manager" where
  "toggleTask taskId tm =
     (case List.find (\<lambda>t. task_id t = taskId) (tasks tm) of
        None \<Rightarrow> (None, tm)
      | Some task \<Rightarrow>
          (Some (task\<lparr>completed := \<not> completed task\<rparr>),
           saveTasks (tm\<lparr>tasks := mutate_first (\<lambda>t. task_id t = taskId)
                                    (\<lambda>t. t\<lparr>completed := \<not> completed t\<rparr>) (tasks tm)\<rparr>)))"

subsection \<open>Queries\<close>

definition getAllTasks :: "task_manager \<Rightarrow> task list" where
  "getAllTasks tm = tasks tm"

definition getCompletedTasks :: "task_manager \<Rightarrow> task list" where
  "getCompletedTasks tm = filter (\<lambda>task. completed task) (tasks tm)"

definition getPendingTasks :: "task_manager \<Rightarrow> task list" where
  "getPendingTasks tm = filter (\<lambda>task. \<not> completed task) (tasks tm)"

text \<open>
  \<^verbatim>\<open>a > b\<close> on two strings compares them unit by unit: the first position where they
  differ decides, and a proper prefix is the smaller one. \<open>string_gt a b\<close> is \<^verbatim>\<open>a > b\<close>.
\<close>

fun string_gt :: "string \<Rightarrow> string \<Rightarrow> bool" where
  "string_gt [] b = False"
| "string_gt (x # a) [] = True"
| "string_gt (x # a) (y # b) =
     (if x = y then string_gt a b else (of_char y :: nat) < of_char x)"

text \<open>
  \<open>today\<close> is \<^verbatim>\<open>new Date().toISOString().split('T')[0]\<close>, the date part of the clock
  reading, an argument of the model.
\<close>

definition getTodayTasks :: "string \<Rightarrow> task_manager \<Rightarrow> task list" where
  "getTodayTasks today tm = filter (\<lambda>task. dueDate task = today) (tasks tm)"

definition getUpcomingTasks :: "string \<Rightarrow> task_manager \<Rightarrow> task list" where
  "getUpcomingTasks today tm = filter (\<lambda>task. string_gt (dueDate task) today) (tasks tm)"

subsection \<open>Numbers\<close>

text \<open>
  A JavaScript number is an IEEE 754 double. A finite double is a rational number, so
  \<open>Num\<close> carries a rational; \<^verbatim>\<open>0 / 0\<close> is \<open>NaN\<close> and a positive number divided by
  zero is \<open>Infinity\<close>.
\<close>

datatype number = Num rat | NaN | Infinity

text \<open>
  Rounding to the nearest integer, a tie going to the even one: the rounding of the
  last bit of a double's significand.
\<close>

definition round_ties_even :: "rat \<Rightarrow> int" where
  "round_ties_even x =
     (let n = \<lfloor>x\<rfloor>; r = x - of_int n
      in if r < 1 / 2 then n else if 1 / 2 < r then n + 1 else if even n then n else n + 1)"

lemma halve_floor: "(2::rat) \<le> x \<Longrightarrow> \<lfloor>x / 2\<rfloor> < \<lfloor>x\<rfloor>"
proof -
  assume a: "2 \<le> x"
  have "x / 2 \<le> x - 1" using a by simp
  then have "\<lfloor>x / 2\<rfloor> \<le> \<lfloor>x - 1\<rfloor>" by (rule floor_mono)
  then show ?thesis by simp
qed

lemma halve_ceiling: "(1::rat) < y \<Longrightarrow> \<lceil>y / 2\<rceil> < \<lceil>y\<rceil>"
proof -
  assume a: "1 < y"
  have c: "y \<le> of_int \<lceil>y\<rceil>" by simp
  have "2 \<le> \<lceil>y\<rceil>" using a by (simp add: less_ceiling_iff le_ceiling_iff)
  then have "(of_int \<lceil>y\<rceil> :: rat) / 2 \<le> of_int (\<lceil>y\<rceil> - 1)" by simp
  with c have "y / 2 \<le> of_int (\<lceil>y\<rceil> - 1)" by linarith
  then have "\<lceil>y / 2\<rceil> \<le> \<lceil>y\<rceil> - 1" by (rule ceiling_le)
  then show ?thesis by simp
qed

text \<open>
  The double nearest to a positive rational \<open>x\<close>. A double has 53 significant bits:
  \<open>x\<close> is scaled by a power of two into the range from \<open>2 ^ 52\<close> up to \<open>2 ^ 53\<close>, rounded
  there to an integer, and scaled back. Exponents are not bounded here: an array has
  fewer than \<open>2 ^ 32\<close> elements, so the quotients and products this program computes
  are 0 or lie between \<open>1 / 2 ^ 32\<close> and 100, far from overflow and from the subnormal
  numbers.
\<close>

function double_pos :: "rat \<Rightarrow> rat" where
  "double_pos x =
     (if x \<le> 0 then 0
      else if 2 ^ 53 \<le> x then 2 * double_pos (x / 2)
      else if x < 2 ^ 52 then double_pos (2 * x) / 2
      else of_int (round_ties_even x))"
  by pat_completeness auto
termination
proof (relation "measure (\<lambda>x. if 2 ^ 53 \<le> x then nat \<lfloor>x\<rfloor> else nat \<lceil>2 ^ 53 / x\<rceil>)")
  show "wf (measure (\<lambda>x::rat. if 2 ^ 53 \<le> x then nat \<lfloor>x\<rfloor> else nat \<lceil>2 ^ 53 / x\<rceil>))"
    by simp
next
  fix x :: rat
  assume a: "\<not> x \<le> 0" "2 ^ 53 \<le> x"
  have f: "\<lfloor>x / 2\<rfloor> < \<lfloor>x\<rfloor>" using a by (intro halve_floor) simp
  have "(3::rat) \<le> x" using a by simp
  then have p: "3 \<le> \<lfloor>x\<rfloor>" by (simp add: le_floor_iff)
  have "2 ^ 53 / (x / 2) \<le> 2" using a by (simp add: field_simps)
  then have "\<lceil>2 ^ 53 / (x / 2)\<rceil> \<le> 2" by (intro ceiling_le) simp
  with p have c: "\<lceil>2 ^ 53 / (x / 2)\<rceil> < \<lfloor>x\<rfloor>" by linarith
  have "(if 2 ^ 53 \<le> x / 2 then nat \<lfloor>x / 2\<rfloor> else nat \<lceil>2 ^ 53 / (x / 2)\<rceil>) < nat \<lfloor>x\<rfloor>"
    using f c p by (simp only: split: if_split) linarith
  then show "(x / 2, x) \<in> measure (\<lambda>x. if 2 ^ 53 \<le> x then nat \<lfloor>x\<rfloor> else nat \<lceil>2 ^ 53 / x\<rceil>)"
    using a(2) by (simp only: in_measure if_True)
next
  fix x :: rat
  assume a: "\<not> x \<le> 0" "\<not> 2 ^ 53 \<le> x" "x < 2 ^ 52"
  have "1 < 2 ^ 53 / x" using a by (simp add: field_simps)
  from halve_ceiling [OF this] have c: "\<lceil>2 ^ 53 / (2 * x)\<rceil> < \<lceil>2 ^ 53 / x\<rceil>"
    by (simp add: field_simps)
  have n: "\<not> 2 ^ 53 \<le> 2 * x" using a by simp
  have "0 < 2 ^ 53 / x" using a by simp
  then have "0 < \<lceil>2 ^ 53 / x\<rceil>" by (simp only: ceiling_less_iff less_ceiling_iff of_int_0)
  with c have "nat \<lceil>2 ^ 53 / (2 * x)\<rceil> < nat \<lceil>2 ^ 53 / x\<rceil>" by linarith
  then show "(2 * x, x) \<in> measure (\<lambda>x. if 2 ^ 53 \<le> x then nat \<lfloor>x\<rfloor> else nat \<lceil>2 ^ 53 / x\<rceil>)"
    using n a(2) by (simp only: in_measure if_False)
qed

declare double_pos.simps [simp del]

text \<open>The double nearest to any rational: rounding is symmetric about zero.\<close>

definition to_double :: "rat \<Rightarrow> rat" where
  "to_double x = (if x < 0 then - double_pos (- x) else double_pos x)"

text \<open>
  \<^verbatim>\<open>a / b\<close> on two array lengths, and \<^verbatim>\<open>x * y\<close> for a positive constant \<open>y\<close>: the exact
  result, rounded to a double.
\<close>

definition divide_lengths :: "nat \<Rightarrow> nat \<Rightarrow> number" where
  "divide_lengths a b =
     (if b = 0 then (if a = 0 then NaN else Infinity)
      else Num (to_double (of_nat a / of_nat b)))"

fun times_number :: "number \<Rightarrow> rat \<Rightarrow> number" where
  "times_number (Num x) y = Num (to_double (x * y))"
| "times_number NaN y = NaN"
| "times_number Infinity y = Infinity"

text \<open>
  \<^verbatim>\<open>Math.round\<close>: the nearest integer, a tie going up (towards positive infinity).
\<close>

fun Math_round :: "number \<Rightarrow> number" where
  "Math_round (Num x) = Num (of_int \<lfloor>x + 1 / 2\<rfloor>)"
| "Math_round NaN = NaN"
| "Math_round Infinity = Infinity"

definition getCompletionPercentage :: "task_manager \<Rightarrow> number" where
  "getCompletionPercentage tm =
     (if length (tasks tm) = 0 then Num 0
      else Math_round (times_number
             (divide_lengths (length (getCompletedTasks tm)) (length (tasks tm))) 100))"

definition getRemainingTasksCount :: "task_manager \<Rightarrow> nat" where
  "getRemainingTasksCount tm = length (getPendingTasks tm)"

text \<open>
  The number that \<^verbatim>\<open>getCompletionPercentage\<close> hands to \<^verbatim>\<open>Math.round\<close> for a non-empty
  collection, written out: the quotient of the two lengths rounded to a double, the
  product of that double and 100 rounded to a double.
\<close>

definition double_percentage :: "task_manager \<Rightarrow> rat" where
  "double_percentage tm =
     to_double (to_double (of_nat (length (getCompletedTasks tm))
                           / of_nat (length (getAllTasks tm))) * 100)"

text \<open>
  The percentage as a rational number, completed / total \<times> 100 with no rounding of
  the quotient or of the product: the value to compare \<^verbatim>\<open>getCompletionPercentage\<close> with.
\<close>

definition exact_percentage :: "task_manager \<Rightarrow> rat" where
  "exact_percentage tm =
     of_nat (length (getCompletedTasks tm)) / of_nat (length (getAllTasks tm)) * 100"

subsection \<open>Sequences of calls\<close>

text \<open>
  The manager that the constructor builds when localStorage holds no tasks
  (\<^verbatim>\<open>loadTasks\<close> returns the empty array), and a sequence of \<^verbatim>\<open>addTask\<close> and
  \<^verbatim>\<open>deleteTask\<close> calls run on a manager. An \<open>Add\<close> carries the clock readings of
  its call.
\<close>

definition new_TaskManager :: task_manager where
  "new_TaskManager = \<lparr>tasks = [], saved = []\<rparr>"

datatype operation = Add int string taskData | Delete int

fun apply_operation :: "task_manager \<Rightarrow> operation \<Rightarrow> task_manager" where
  "apply_operation tm (Add now stamp d) = snd (addTask now stamp d tm)"
| "apply_operation tm (Delete taskId) = deleteTask taskId tm"

fun run :: "task_manager \<Rightarrow> operation list \<Rightarrow> task_manager" where
  "run tm [] = tm"
| "run tm (op # ops) = run (apply_operation tm op) ops"

fun adds :: "operation list \<Rightarrow> nat" where
  "adds [] = 0"
| "adds (Add now stamp d # ops) = Suc (adds ops)"
| "adds (Delete taskId # ops) = adds ops"

text \<open>
  A delete is successful when a task with its id is in the collection at the time of
  the call.
\<close>

fun successful_deletes :: "task_manager \<Rightarrow> operation list \<Rightarrow> nat" where
  "successful_deletes tm [] = 0"
| "successful_deletes tm (Add now stamp d # ops) =
     successful_deletes (apply_operation tm (Add now stamp d)) ops"
| "successful_deletes tm (Delete taskId # ops) =
     (if taskId \<in> set (map task_id (tasks tm)) then 1 else 0)
     + successful_deletes (apply_operation tm (Delete taskId)) ops"

text \<open>
  \<open>fresh_ids tm ops\<close>: whenever \<open>ops\<close>, run on \<open>tm\<close>, adds a task, the clock reading that
  becomes its id is the id of no task in the collection at that time.
\<close>

fun fresh_ids :: "task_manager \<Rightarrow> operation list \<Rightarrow> bool" where
  "fresh_ids tm [] = True"
| "fresh_ids tm (Add now stamp d # ops) =
     (now \<notin> set (map task_id (tasks tm)) \<and> fresh_ids (apply_operation tm (Add now stamp d)) ops)"
| "fresh_ids tm (Delete taskId # ops) = fresh_ids (apply_operation tm (Delete taskId)) ops"

text \<open>The clock readings of the adds of a sequence, in order.\<close>

fun add_times :: "operation list \<Rightarrow> int list" where
  "add_times [] = []"
| "add_times (Add now stamp d # ops) = now # add_times ops"
| "add_times (Delete taskId # ops) = add_times ops"

section \<open>Settings\<close>

text \<open>
  The settings object: its keys in the order of the object literal, each with a
  boolean or a string. Reading a property by name also finds what the object inherits
  from \<^verbatim>\<open>Object.prototype\<close>; \<open>Inherited name\<close> stands for that member.
\<close>

datatype setting = Flag bool | Text string | Inherited string

definition Object_prototype_names :: "string list" where
  "Object_prototype_names =
     [''constructor'', ''hasOwnProperty'', ''isPrototypeOf'', ''propertyIsEnumerable'',
      ''toLocaleString'', ''toString'', ''valueOf'', ''__proto__'',
      ''__defineGetter__'', ''__defineSetter__'', ''__lookupGetter__'', ''__lookupSetter__'']"

type_synonym settings = "(string \<times> setting) list"

definition getDefaultSettings :: settings where
  "getDefaultSettings =
     [(''theme'', Text ''light''),
      (''fontSize'', Text ''medium''),
      (''pushNotifications'', Flag True),
      (''emailReminders'', Flag False),
      (''soundEffects'', Flag True),
      (''showCompletedTasks'', Flag True),
      (''sortBy'', Text ''dueDate''),
      (''recurringTasks'', Flag True),
      (''twoFactor'', Flag False),
      (''darkMode'', Flag False)]"

text \<open>
  \<^verbatim>\<open>loadSettings\<close> reads the \<^verbatim>\<open>settings\<close> key of localStorage: \<open>stored\<close> is what
  \<^verbatim>\<open>getItem\<close> returns, \<open>None\<close> for \<^verbatim>\<open>null\<close> (no record). \<^verbatim>\<open>JSON.parse\<close> is an argument;
  it throws on a text that is not JSON. The empty text is falsy, as \<^verbatim>\<open>null\<close> is.
\<close>

datatype error = SyntaxError

definition loadSettings :: "(string \<Rightarrow> error + settings) \<Rightarrow> string option \<Rightarrow> error + settings" where
  "loadSettings JSON_parse stored =
     (case stored of
        None \<Rightarrow> Inr getDefaultSettings
      | Some text \<Rightarrow> if text = [] then Inr getDefaultSettings else JSON_parse text)"

record settings_manager =
  settings :: settings

definition new_SettingsManager ::
  "(string \<Rightarrow> error + settings) \<Rightarrow> string option \<Rightarrow> error + settings_manager" where
  "new_SettingsManager JSON_parse stored =
     (case loadSettings JSON_parse stored of
        Inl e \<Rightarrow> Inl e
      | Inr s \<Rightarrow> Inr \<lparr>settings = s\<rparr>)"

text \<open>
  \<^verbatim>\<open>this.settings[key]\<close>: the object's own property if it has one of that name, else
  the inherited member of that name, else \<^verbatim>\<open>undefined\<close> (\<open>None\<close>).
\<close>

definition getSetting :: "string \<Rightarrow> settings_manager \<Rightarrow> setting option" where
  "getSetting key sm =
     (case map_of (settings sm) key of
        Some v \<Rightarrow> Some v
      | None \<Rightarrow> if key \<in> set Object_prototype_names then Some (Inherited key) else None)"

definition getAllSettings :: "settings_manager \<Rightarrow> settings" where
  "getAllSettings sm = settings sm"

section \<open>Notifications\<close>

record notification =
  notification_id :: int
  message :: string
  type :: string
  timestamp :: string
  read :: bool

text \<open>
  A badge element of the page (\<^verbatim>\<open>.notification_badge\<close>): its text and its
  \<^verbatim>\<open>style.display\<close>.
\<close>

record badge =
  textContent :: nat
  display :: string

text \<open>
  The manager: \<^verbatim>\<open>this.notifications\<close> (the history, newest first), the writes to the
  \<^verbatim>\<open>notifications\<close> key of localStorage (the latest first), and the badges of the page.
\<close>

record notification_manager =
  notifications :: "notification list"
  saved_notifications :: "notification list list"
  badges :: "badge list"

definition saveNotifications :: "notification_manager \<Rightarrow> notification_manager" where
  "saveNotifications nm = nm\<lparr>saved_notifications := notifications nm # saved_notifications nm\<rparr>"

definition getAllNotifications :: "notification_manager \<Rightarrow> notification list" where
  "getAllNotifications nm = notifications nm"

definition getUnreadCount :: "notification_manager \<Rightarrow> nat" where
  "getUnreadCount nm = length (filter (\<lambda>n. \<not> read n) (notifications nm))"

definition updateNotificationBadge :: "notification_manager \<Rightarrow> notification_manager" where
  "updateNotificationBadge nm =
     (let unreadCount = getUnreadCount nm
      in nm\<lparr>badges :=
           map (\<lambda>badge. badge\<lparr>textContent := unreadCount,
                                display := (if unreadCount > 0 then ''flex'' else ''none'')\<rparr>)
               (badges nm)\<rparr>)"

text \<open>
  \<^verbatim>\<open>addNotification(message, type = 'info')\<close>: a call without a type (\<open>None\<close>) takes the
  default. \<^verbatim>\<open>unshift\<close> puts the entry in front; \<^verbatim>\<open>slice(0, 50)\<close> keeps the first 50.
\<close>

definition addNotification ::
  "int \<Rightarrow> string \<Rightarrow> string \<Rightarrow> string option \<Rightarrow> notification_manager \<Rightarrow> notification_manager" where
  "addNotification now stamp msg ty nm =
     (let notification = \<lparr> notification_id = now,
                           message = msg,
                           type = (case ty of None \<Rightarrow> ''info'' | Some t \<Rightarrow> t),
                           timestamp = stamp,
                           read = False \<rparr>;
          unshifted = notification # notifications nm;
          kept = (if length unshifted > 50 then take 50 unshifted else unshifted)
      in updateNotificationBadge (saveNotifications (nm\<lparr>notifications := kept\<rparr>)))"

definition markAsRead :: "int \<Rightarrow> notification_manager \<Rightarrow> notification_manager" where
  "markAsRead ident nm =
     (case List.find (\<lambda>n. notification_id n = ident) (notifications nm) of
        None \<Rightarrow> nm
      | Some notification \<Rightarrow>
          updateNotificationBadge (saveNotifications
            (nm\<lparr>notifications := mutate_first (\<lambda>n. notification_id n = ident)
                                    (\<lambda>n. n\<lparr>read := True\<rparr>) (notifications nm)\<rparr>)))"

definition markAllAsRead :: "notification_manager \<Rightarrow> notification_manager" where
  "markAllAsRead nm =
     updateNotificationBadge (saveNotifications
       (nm\<lparr>notifications := map (\<lambda>n. n\<lparr>read := True\<rparr>) (notifications nm)\<rparr>))"

section \<open>Sample data\<close>

text \<open>Concrete objects, for the instances below.\<close>

definition sample_task :: "int \<Rightarrow> bool \<Rightarrow> string \<Rightarrow> task" where
  "sample_task i c due =
     \<lparr> task_id = i, title = ''Buy milk'', description = [], category = [],
       priority = ''medium'', dueDate = due, dueTime = [], reminder = ''none'',
       repeat = ''none'', completed = c, subtasks = [], createdAt = ''2024-01-01T08:00:00.000Z'' \<rparr>"

definition sample_tasks :: "int \<Rightarrow> int \<Rightarrow> bool \<Rightarrow> task list" where
  "sample_tasks i j c = map (\<lambda>k. sample_task k c []) [i..j]"

definition sample_data :: taskData where
  "sample_data =
     \<lparr> title_in = ''Buy milk'', description_in = None, category_in = Some [],
       priority_in = Some ''high'', dueDate_in = Some ''2024-01-01'', dueTime_in = None,
       reminder_in = None, repeat_in = Some [], subtasks_in = None,
       completed_in = Some True \<rparr>"

definition sample_notification :: "int \<Rightarrow> bool \<Rightarrow> notification" where
  "sample_notification i r =
     \<lparr> notification_id = i, message = ''Task created successfully!'', type = ''success'',
       timestamp = ''2024-01-01T08:00:00.000Z'', read = r \<rparr>"

section \<open>Properties\<close>

subsection \<open>Finding and changing the first match\<close>

lemma find_mutate_first:
  "List.find p xs = Some x \<Longrightarrow> p (f x) \<Longrightarrow> List.find p (mutate_first p f xs) = Some (f x)"
  by (induction xs) (auto split: if_splits)

lemma mutate_first_twice:
  "(\<And>x. p x \<Longrightarrow> p (f x) \<and> f (f x) = x) \<Longrightarrow> mutate_first p f (mutate_first p f xs) = xs"
  by (induction xs) auto

lemma find_Some_iff_mem:
  "(\<exists>x. List.find p xs = Some x) \<longleftrightarrow> (\<exists>x \<in> set xs. p x)"
  by (induction xs) auto

lemma find_mutate_first_update:
  "List.find p xs = Some x \<Longrightarrow>
     \<exists>i < length xs. xs ! i = x \<and> mutate_first p f xs = xs[i := f x]"
proof (induction xs)
  case Nil
  then show ?case by simp
next
  case (Cons y ys)
  show ?case
  proof (cases "p y")
    case True
    with Cons.prems have "y = x" by simp
    with True have "(y # ys) ! 0 = x \<and> mutate_first p f (y # ys) = (y # ys)[0 := f x]"
      by simp
    then show ?thesis by blast
  next
    case False
    with Cons.prems have "List.find p ys = Some x" by simp
    from Cons.IH [OF this] obtain i where
      i: "i < length ys" "ys ! i = x" "mutate_first p f ys = ys[i := f x]" by blast
    with False have "Suc i < length (y # ys) \<and> (y # ys) ! Suc i = x
        \<and> mutate_first p f (y # ys) = (y # ys)[Suc i := f x]"
      by simp
    then show ?thesis by blast
  qed
qed

lemma find_task_id:
  "taskId \<in> set (map task_id ts) \<Longrightarrow> \<exists>task. List.find (\<lambda>x. task_id x = taskId) ts = Some task"
  by (induction ts) auto

lemma find_task_id_None:
  "taskId \<notin> set (map task_id ts) \<Longrightarrow> List.find (\<lambda>x. task_id x = taskId) ts = None"
  by (induction ts) auto

lemma find_Some_holds: "List.find p xs = Some x \<Longrightarrow> p x"
  by (induction xs) (auto split: if_splits)

subsection \<open>Toggling\<close>

lemma toggleTask_found:
  assumes "List.find (\<lambda>x. task_id x = taskId) (tasks tm) = Some task"
  shows "toggleTask taskId tm =
     (Some (task\<lparr>completed := \<not> completed task\<rparr>),
      saveTasks (tm\<lparr>tasks := mutate_first (\<lambda>t. task_id t = taskId)
                               (\<lambda>t. t\<lparr>completed := \<not> completed t\<rparr>) (tasks tm)\<rparr>))"
  using assms by (simp add: toggleTask_def)

text \<open>
  C5. When the collection holds a task with id \<open>taskId\<close>, \<^verbatim>\<open>toggleTask(taskId)\<close> finds
  the first such task and returns it with its \<open>completed\<close> flag negated, the collection
  differing from the old one at that task's position only; a second call returns the
  task as it was at first and the collection is the original one again.
\<close>

theorem toggleTask_twice:
  assumes "taskId \<in> set (map task_id (tasks tm))"
  shows "\<exists>task i.
      List.find (\<lambda>x. task_id x = taskId) (tasks tm) = Some task
    \<and> i < length (getAllTasks tm) \<and> getAllTasks tm ! i = task
    \<and> fst (toggleTask taskId tm) = Some (task\<lparr>completed := \<not> completed task\<rparr>)
    \<and> getAllTasks (snd (toggleTask taskId tm))
        = (getAllTasks tm)[i := task\<lparr>completed := \<not> completed task\<rparr>]
    \<and> fst (toggleTask taskId (snd (toggleTask taskId tm))) = Some task
    \<and> getAllTasks (snd (toggleTask taskId (snd (toggleTask taskId tm)))) = getAllTasks tm"
proof -
  let ?p = "\<lambda>x. task_id x = taskId"
  let ?f = "\<lambda>t. t\<lparr>completed := \<not> completed t\<rparr>"
  from find_task_id [OF assms] obtain task where
    found: "List.find ?p (tasks tm) = Some task" by blast
  from find_mutate_first_update [OF found, of ?f] obtain i where
    i: "i < length (tasks tm)" "tasks tm ! i = task"
       "mutate_first ?p ?f (tasks tm) = (tasks tm)[i := ?f task]" by blast
  have id: "?p task" using found by (rule find_Some_holds)
  let ?tm1 = "snd (toggleTask taskId tm)"
  have first: "toggleTask taskId tm = (Some (?f task), saveTasks (tm\<lparr>tasks := mutate_first ?p ?f (tasks tm)\<rparr>))"
    using found by (rule toggleTask_found)
  have tasks1: "tasks ?tm1 = mutate_first ?p ?f (tasks tm)"
    by (simp add: first saveTasks_def)
  have found1: "List.find ?p (tasks ?tm1) = Some (?f task)"
    unfolding tasks1 using found id by (intro find_mutate_first) simp_all
  have second: "toggleTask taskId ?tm1 =
      (Some (?f (?f task)), saveTasks (?tm1\<lparr>tasks := mutate_first ?p ?f (tasks ?tm1)\<rparr>))"
    using found1 by (rule toggleTask_found)
  have restored: "mutate_first ?p ?f (mutate_first ?p ?f (tasks tm)) = tasks tm"
    by (rule mutate_first_twice) simp
  have r2: "fst (toggleTask taskId ?tm1) = Some task"
    by (simp add: second)
  have t2: "tasks (snd (toggleTask taskId ?tm1)) = tasks tm"
    by (simp add: second saveTasks_def tasks1 restored)
  show ?thesis
    using found i r2 t2 by (auto simp: getAllTasks_def first saveTasks_def)
qed

theorem toggleTask_twice_witness:
  "2 \<in> set (map task_id (tasks \<lparr>tasks = [sample_task 1 False [], sample_task 2 True []], saved = []\<rparr>))
   \<and> fst (toggleTask 2 \<lparr>tasks = [sample_task 1 False [], sample_task 2 True []], saved = []\<rparr>)
       = Some (sample_task 2 False [])
   \<and> getAllTasks (snd (toggleTask 2 (snd (toggleTask 2
        \<lparr>tasks = [sample_task 1 False [], sample_task 2 True []], saved = []\<rparr>))))
       = [sample_task 1 False [], sample_task 2 True []]"
  using toggleTask_twice [of 2 "\<lparr>tasks = [sample_task 1 False [], sample_task 2 True []], saved = []\<rparr>"]
  by (auto simp: sample_task_def getAllTasks_def)

subsection \<open>Updating a task that is not there\<close>

text \<open>
  C6. When no task of the collection has the id, \<^verbatim>\<open>updateTask(taskId, updates)\<close>
  returns \<^verbatim>\<open>undefined\<close> and leaves the manager as it was: the collection and its size
  are unchanged and nothing is written to localStorage. The call has no other outcome
  (it does not throw).
\<close>

theorem updateTask_absent:
  assumes "taskId \<notin> set (map task_id (tasks tm))"
  shows "fst (updateTask taskId updates tm) = None
    \<and> snd (updateTask taskId updates tm) = tm
    \<and> getAllTasks (snd (updateTask taskId updates tm)) = getAllTasks tm
    \<and> length (getAllTasks (snd (updateTask taskId updates tm))) = length (getAllTasks tm)
    \<and> saved (snd (updateTask taskId updates tm)) = saved tm"
  using find_task_id_None [OF assms] by (simp add: updateTask_def)

theorem updateTask_absent_witness:
  "3 \<notin> set (map task_id (tasks \<lparr>tasks = [sample_task 1 False [], sample_task 2 True []], saved = []\<rparr>))
   \<and> updateTask 3 [Set_title ''Buy bread'', Set_completed True]
        \<lparr>tasks = [sample_task 1 False [], sample_task 2 True []], saved = []\<rparr>
      = (None, \<lparr>tasks = [sample_task 1 False [], sample_task 2 True []], saved = []\<rparr>)"
  using updateTask_absent [of 3 "\<lparr>tasks = [sample_task 1 False [], sample_task 2 True []], saved = []\<rparr>"
      "[Set_title ''Buy bread'', Set_completed True]"]
  by (simp add: sample_task_def prod_eq_iff)

subsection \<open>Adding a task\<close>

text \<open>
  C7. For every argument object, \<^verbatim>\<open>addTask\<close> returns a task that it has put at the end
  of the collection, and writes the new collection to localStorage. The task has the
  clock reading as its id, the title as given, \<open>completed\<close> false whatever the argument
  holds, and for each other property the given value, or the default when the property
  is missing or empty: the empty string for description, category, dueDate and dueTime,
  \<open>medium\<close> for priority, \<open>none\<close> for reminder and repeat, the empty array for subtasks.
  No property is checked: there is no argument for which the task is not added.
\<close>

theorem addTask_appends:
  "getAllTasks (snd (addTask now stamp d tm)) = getAllTasks tm @ [fst (addTask now stamp d tm)]
   \<and> saved (snd (addTask now stamp d tm)) = getAllTasks (snd (addTask now stamp d tm)) # saved tm
   \<and> fst (addTask now stamp d tm) =
       \<lparr> task_id = now,
         title = title_in d,
         description = (case description_in d of None \<Rightarrow> [] | Some s \<Rightarrow> s),
         category = (case category_in d of None \<Rightarrow> [] | Some s \<Rightarrow> s),
         priority = (if priority_in d = None \<or> priority_in d = Some [] then ''medium''
                     else the (priority_in d)),
         dueDate = (case dueDate_in d of None \<Rightarrow> [] | Some s \<Rightarrow> s),
         dueTime = (case dueTime_in d of None \<Rightarrow> [] | Some s \<Rightarrow> s),
         reminder = (if reminder_in d = None \<or> reminder_in d = Some [] then ''none''
                     else the (reminder_in d)),
         repeat = (if repeat_in d = None \<or> repeat_in d = Some [] then ''none''
                   else the (repeat_in d)),
         completed = False,
         subtasks = (case subtasks_in d of None \<Rightarrow> [] | Some xs \<Rightarrow> xs),
         createdAt = stamp \<rparr>"
  by (auto simp: addTask_def getAllTasks_def saveTasks_def or_string_def or_array_def Let_def
      split: option.splits)

subsection \<open>Completed and pending tasks\<close>

text \<open>
  C10. \<^verbatim>\<open>getCompletedTasks\<close> and \<^verbatim>\<open>getPendingTasks\<close> split the collection in two: each is
  a subsequence of the collection (its order is kept), the completed tasks are the tasks
  whose flag is set and the pending ones those whose flag is not, together they hold
  every task as often as the collection does, their lengths add up to the collection's,
  and \<^verbatim>\<open>getRemainingTasksCount\<close> is the size of the collection less the number of
  completed tasks.
\<close>

theorem completed_pending_partition:
  "subseq (getCompletedTasks tm) (getAllTasks tm)
   \<and> subseq (getPendingTasks tm) (getAllTasks tm)
   \<and> set (getCompletedTasks tm) = {t. t \<in> set (getAllTasks tm) \<and> completed t}
   \<and> set (getPendingTasks tm) = {t. t \<in> set (getAllTasks tm) \<and> \<not> completed t}
   \<and> set (getCompletedTasks tm) \<inter> set (getPendingTasks tm) = {}
   \<and> mset (getCompletedTasks tm) + mset (getPendingTasks tm) = mset (getAllTasks tm)
   \<and> length (getCompletedTasks tm) + length (getPendingTasks tm) = length (getAllTasks tm)
   \<and> getRemainingTasksCount tm = length (getAllTasks tm) - length (getCompletedTasks tm)
   \<and> int (getRemainingTasksCount tm)
       = int (length (getAllTasks tm)) - int (length (getCompletedTasks tm))"
proof -
  have len: "length (filter completed xs) + length (filter (\<lambda>t. \<not> completed t) xs) = length xs"
    for xs :: "task list"
    by (induction xs) auto
  have ms: "mset (filter completed xs) + mset (filter (\<lambda>t. \<not> completed t) xs) = mset xs"
    for xs :: "task list"
    by (induction xs) auto
  show ?thesis
    using len [of "tasks tm"] ms [of "tasks tm"]
    by (auto simp: getCompletedTasks_def getPendingTasks_def getAllTasks_def
        getRemainingTasksCount_def)
qed

subsection \<open>Tasks due today and later\<close>

lemma string_gt_iff_less: "string_gt a b \<longleftrightarrow> b < a"
  by (induction a b rule: string_gt.induct) (auto simp: less_char_def)

text \<open>
  C3. For every collection and every date text \<open>today\<close>, \<^verbatim>\<open>getTodayTasks\<close> returns, in
  the collection's order, the tasks whose \<open>dueDate\<close> is the same string as \<open>today\<close>, and
  \<^verbatim>\<open>getUpcomingTasks\<close> those whose \<open>dueDate\<close> is greater than \<open>today\<close> in the
  lexicographic order of strings (character by character, by character code). Nothing
  else about a task is looked at; in particular a completed task is returned like any
  other. The order is that of the texts, not of the dates they may stand for.
\<close>

theorem due_today_and_upcoming:
  "getTodayTasks today tm = filter (\<lambda>t. dueDate t = today) (getAllTasks tm)
   \<and> getUpcomingTasks today tm = filter (\<lambda>t. today < dueDate t) (getAllTasks tm)
   \<and> set (getTodayTasks today tm) = {t. t \<in> set (getAllTasks tm) \<and> dueDate t = today}
   \<and> set (getUpcomingTasks today tm) = {t. t \<in> set (getAllTasks tm) \<and> today < dueDate t}"
  by (auto simp: getTodayTasks_def getUpcomingTasks_def getAllTasks_def string_gt_iff_less)

text \<open>
  Two instances. A completed task due today is returned by \<^verbatim>\<open>getTodayTasks\<close> and not
  by \<^verbatim>\<open>getUpcomingTasks\<close>. A due date written without the leading zeros,
  \<open>2024-1-5\<close>, counts as upcoming on \<open>2024-01-10\<close>, five days after it: the texts are
  compared, not the dates.
\<close>

lemma due_today_instance:
  "getTodayTasks ''2024-01-01'' \<lparr>tasks = [sample_task 1 True ''2024-01-01''], saved = []\<rparr>
     = [sample_task 1 True ''2024-01-01'']
   \<and> getUpcomingTasks ''2024-01-01'' \<lparr>tasks = [sample_task 1 True ''2024-01-01''], saved = []\<rparr>
     = []"
  by (simp add: getTodayTasks_def getUpcomingTasks_def sample_task_def)

lemma due_upcoming_lexical_instance:
  "getUpcomingTasks ''2024-01-10'' \<lparr>tasks = [sample_task 1 False ''2024-1-5''], saved = []\<rparr>
     = [sample_task 1 False ''2024-1-5'']"
  by (simp add: getUpcomingTasks_def sample_task_def)

subsection \<open>Counting adds and deletes\<close>

lemma tasks_addTask:
  "tasks (snd (addTask now stamp d tm)) = tasks tm @ [fst (addTask now stamp d tm)]"
  by (simp add: addTask_def Let_def saveTasks_def)

lemma task_id_addTask: "task_id (fst (addTask now stamp d tm)) = now"
  by (simp add: addTask_def Let_def)

lemma tasks_deleteTask:
  "tasks (deleteTask taskId tm) = filter (\<lambda>t. task_id t \<noteq> taskId) (tasks tm)"
  by (simp add: deleteTask_def saveTasks_def)

lemma length_remove_distinct_id:
  "distinct (map task_id ts) \<Longrightarrow>
     length (filter (\<lambda>t. task_id t \<noteq> taskId) ts) + (if taskId \<in> set (map task_id ts) then 1 else 0)
       = length ts"
proof (induction ts)
  case Nil
  then show ?case by simp
next
  case (Cons t ts)
  then have IH: "length (filter (\<lambda>t. task_id t \<noteq> taskId) ts)
      + (if taskId \<in> set (map task_id ts) then 1 else 0) = length ts"
    and new: "task_id t \<notin> set (map task_id ts)"
    by simp_all
  show ?case
  proof (cases "task_id t = taskId")
    case True
    with new have "taskId \<notin> set (map task_id ts)" by simp
    with IH True show ?thesis by simp
  next
    case False
    with IH show ?thesis by simp
  qed
qed

lemma distinct_ids_apply_operation:
  "distinct (map task_id (tasks tm)) \<Longrightarrow> fresh_ids tm (op # ops) \<Longrightarrow>
     distinct (map task_id (tasks (apply_operation tm op)))"
  by (cases op) (auto simp: tasks_addTask task_id_addTask tasks_deleteTask distinct_map_filter)

lemma fresh_ids_tail: "fresh_ids tm (op # ops) \<Longrightarrow> fresh_ids (apply_operation tm op) ops"
  by (cases op) simp_all

lemma length_run_fresh:
  "distinct (map task_id (tasks tm)) \<Longrightarrow> fresh_ids tm ops \<Longrightarrow>
     length (tasks (run tm ops)) + successful_deletes tm ops = length (tasks tm) + adds ops"
proof (induction ops arbitrary: tm)
  case Nil
  then show ?case by simp
next
  case (Cons op ops)
  have d: "distinct (map task_id (tasks (apply_operation tm op)))"
    using Cons.prems by (rule distinct_ids_apply_operation)
  have f: "fresh_ids (apply_operation tm op) ops"
    using Cons.prems(2) by (rule fresh_ids_tail)
  note IH = Cons.IH [OF d f]
  show ?case
  proof (cases op)
    case (Add now stamp data)
    have "length (tasks (apply_operation tm op)) = Suc (length (tasks tm))"
      by (simp add: Add tasks_addTask)
    with IH show ?thesis by (simp add: Add)
  next
    case (Delete taskId)
    have "length (tasks (apply_operation tm op))
        + (if taskId \<in> set (map task_id (tasks tm)) then 1 else 0) = length (tasks tm)"
      using length_remove_distinct_id [OF Cons.prems(1), of taskId]
      by (simp add: Delete tasks_deleteTask)
    with IH show ?thesis by (simp add: Delete split: if_splits)
  qed
qed

text \<open>
  C2. Run any sequence of \<^verbatim>\<open>addTask\<close> and \<^verbatim>\<open>deleteTask\<close> calls on the empty collection.
  If no add is given a clock reading that is the id of a task in the collection at that
  time, then ids stay unique and the length of \<^verbatim>\<open>getAllTasks()\<close> is the number of adds
  minus the number of successful deletes.
\<close>

theorem length_adds_minus_deletes:
  assumes "fresh_ids new_TaskManager ops"
  shows "int (length (getAllTasks (run new_TaskManager ops)))
         = int (adds ops) - int (successful_deletes new_TaskManager ops)"
proof -
  have "distinct (map task_id (tasks new_TaskManager))"
    by (simp add: new_TaskManager_def)
  from length_run_fresh [OF this assms]
  have "length (tasks (run new_TaskManager ops)) + successful_deletes new_TaskManager ops
      = adds ops"
    by (simp add: new_TaskManager_def)
  then show ?thesis
    unfolding getAllTasks_def by linarith
qed

theorem length_adds_minus_deletes_witness:
  "fresh_ids new_TaskManager
     [Add 1000 ''2024-01-01T08:00:00.000Z'' sample_data,
      Add 1001 ''2024-01-01T08:00:00.001Z'' sample_data, Delete 1000, Delete 7]
   \<and> length (getAllTasks (run new_TaskManager
       [Add 1000 ''2024-01-01T08:00:00.000Z'' sample_data,
        Add 1001 ''2024-01-01T08:00:00.001Z'' sample_data, Delete 1000, Delete 7])) = 1
   \<and> adds [Add 1000 ''2024-01-01T08:00:00.000Z'' sample_data,
        Add 1001 ''2024-01-01T08:00:00.001Z'' sample_data, Delete 1000, Delete 7] = 2
   \<and> successful_deletes new_TaskManager
       [Add 1000 ''2024-01-01T08:00:00.000Z'' sample_data,
        Add 1001 ''2024-01-01T08:00:00.001Z'' sample_data, Delete 1000, Delete 7] = 1"
proof -
  have f: "fresh_ids new_TaskManager
     [Add 1000 ''2024-01-01T08:00:00.000Z'' sample_data,
      Add 1001 ''2024-01-01T08:00:00.001Z'' sample_data, Delete 1000, Delete 7]"
    by (simp add: new_TaskManager_def tasks_addTask task_id_addTask tasks_deleteTask)
  have a: "adds [Add 1000 ''2024-01-01T08:00:00.000Z'' sample_data,
        Add 1001 ''2024-01-01T08:00:00.001Z'' sample_data, Delete 1000, Delete 7] = 2"
    by simp
  have s: "successful_deletes new_TaskManager
       [Add 1000 ''2024-01-01T08:00:00.000Z'' sample_data,
        Add 1001 ''2024-01-01T08:00:00.001Z'' sample_data, Delete 1000, Delete 7] = 1"
    by (simp add: new_TaskManager_def tasks_addTask task_id_addTask tasks_deleteTask)
  from length_adds_minus_deletes [OF f] a s f show ?thesis by simp
qed

text \<open>
  Without the condition the count fails. Two adds in the same millisecond give two
  tasks the same id; \<^verbatim>\<open>deleteTask\<close> with that id removes both, so after two adds and one
  successful delete the collection is empty, not of length 1.
\<close>

theorem length_adds_minus_deletes_counterexample:
  "int (length (getAllTasks (run new_TaskManager
       [Add 1000 ''2024-01-01T08:00:00.000Z'' sample_data,
        Add 1000 ''2024-01-01T08:00:00.000Z'' sample_data, Delete 1000])))
   \<noteq> int (adds [Add 1000 ''2024-01-01T08:00:00.000Z'' sample_data,
        Add 1000 ''2024-01-01T08:00:00.000Z'' sample_data, Delete 1000])
     - int (successful_deletes new_TaskManager
       [Add 1000 ''2024-01-01T08:00:00.000Z'' sample_data,
        Add 1000 ''2024-01-01T08:00:00.000Z'' sample_data, Delete 1000])"
  by (simp add: new_TaskManager_def getAllTasks_def tasks_addTask task_id_addTask tasks_deleteTask)

text \<open>
  The condition holds in particular when the clock readings of the adds are pairwise
  different.
\<close>

lemma fresh_ids_distinct_times:
  "distinct (add_times ops) \<Longrightarrow> set (map task_id (tasks tm)) \<inter> set (add_times ops) = {} \<Longrightarrow>
     fresh_ids tm ops"
proof (induction ops arbitrary: tm)
  case Nil
  then show ?case by simp
next
  case (Cons op ops)
  show ?case
  proof (cases op)
    case (Add now stamp data)
    have "set (map task_id (tasks (apply_operation tm op))) \<inter> set (add_times ops) = {}"
      using Cons.prems by (auto simp: Add tasks_addTask task_id_addTask)
    moreover have "distinct (add_times ops)" using Cons.prems(1) by (simp add: Add)
    ultimately have "fresh_ids (apply_operation tm op) ops" by (rule Cons.IH [rotated])
    moreover have "now \<notin> set (map task_id (tasks tm))" using Cons.prems(2) by (auto simp: Add)
    ultimately show ?thesis by (simp add: Add)
  next
    case (Delete taskId)
    have "set (map task_id (tasks (apply_operation tm op))) \<inter> set (add_times ops) = {}"
      using Cons.prems(2) by (auto simp: Delete tasks_deleteTask)
    moreover have "distinct (add_times ops)" using Cons.prems(1) by (simp add: Delete)
    ultimately have "fresh_ids (apply_operation tm op) ops" by (rule Cons.IH [rotated])
    then show ?thesis by (simp add: Delete)
  qed
qed

lemma distinct_times_count:
  "distinct (add_times ops) \<Longrightarrow>
     int (length (getAllTasks (run new_TaskManager ops)))
       = int (adds ops) - int (successful_deletes new_TaskManager ops)"
proof -
  assume d: "distinct (add_times ops)"
  have f: "fresh_ids new_TaskManager ops"
    using d by (rule fresh_ids_distinct_times) (simp add: new_TaskManager_def)
  have "length (tasks (run new_TaskManager ops)) + successful_deletes new_TaskManager ops
      = length (tasks new_TaskManager) + adds ops"
    by (rule length_run_fresh [OF _ f]) (simp add: new_TaskManager_def)
  then show ?thesis
    by (simp add: getAllTasks_def new_TaskManager_def)
qed

section \<open>Properties of the completion percentage\<close>

subsection \<open>Rounding to a double\<close>

lemma round_ties_even_error: "\<bar>of_int (round_ties_even x) - x\<bar> \<le> 1 / 2"
proof -
  define n where "n = \<lfloor>x\<rfloor>"
  have "of_int n \<le> x" "x < of_int n + 1" unfolding n_def by linarith+
  then show ?thesis
    unfolding round_ties_even_def Let_def n_def [symmetric] by (auto simp: abs_if)
qed

lemma double_pos_error: "0 < x \<Longrightarrow> \<bar>double_pos x - x\<bar> \<le> x / 2 ^ 53"
proof (induction x rule: double_pos.induct)
  case (1 x)
  show ?case
  proof (cases "2 ^ 53 \<le> x")
    case True
    then have eq: "double_pos x = 2 * double_pos (x / 2)"
      using 1(3) by (subst double_pos.simps) simp
    have "\<bar>double_pos (x / 2) - x / 2\<bar> \<le> x / 2 / 2 ^ 53"
      using 1(1) [OF _ True] 1(3) by simp
    then show ?thesis unfolding eq by (simp add: abs_if split: if_splits)
  next
    case False
    show ?thesis
    proof (cases "x < 2 ^ 52")
      case True
      then have eq: "double_pos x = double_pos (2 * x) / 2"
        using 1(3) False by (subst double_pos.simps) simp
      have "\<bar>double_pos (2 * x) - 2 * x\<bar> \<le> 2 * x / 2 ^ 53"
        using 1(2) [OF _ False True] 1(3) by simp
      then show ?thesis unfolding eq by (simp add: abs_if split: if_splits)
    next
      case nl: False
      then have eq: "double_pos x = of_int (round_ties_even x)"
        using 1(3) False by (subst double_pos.simps) simp
      have "(1::rat) / 2 \<le> x / 2 ^ 53" using nl by (simp add: field_simps)
      with round_ties_even_error [of x] show ?thesis unfolding eq by linarith
    qed
  qed
qed

lemma to_double_error: "0 \<le> x \<Longrightarrow> \<bar>to_double x - x\<bar> \<le> x / 2 ^ 53"
proof (cases "x = 0")
  case True
  then show ?thesis by (simp add: to_double_def double_pos.simps)
next
  case False
  assume "0 \<le> x"
  with False have "0 < x" by simp
  then show ?thesis using double_pos_error [of x] by (simp add: to_double_def)
qed

lemma percentage_error:
  assumes q: "0 \<le> q" "q \<le> 1"
  shows "\<bar>to_double (to_double q * 100) - q * 100\<bar> \<le> 1 / 2 ^ 44"
proof -
  define u :: rat where "u = 1 / 2 ^ 53"
  define d where "d = to_double q"
  have e1: "\<bar>d - q\<bar> \<le> q * u" using to_double_error [OF q(1)] by (simp add: d_def u_def)
  have u0: "0 < u" "u \<le> 1" by (simp_all add: u_def)
  have d0: "0 \<le> d"
  proof -
    have "q * u \<le> q" using q(1) u0 by (simp add: mult_left_le)
    with e1 show ?thesis by linarith
  qed
  have d1: "d \<le> 2"
  proof -
    have "q * u \<le> 1" using q u0 by (simp add: mult_le_one)
    with e1 q show ?thesis by linarith
  qed
  have "0 \<le> d * 100" using d0 by simp
  from to_double_error [OF this] have e2: "\<bar>to_double (d * 100) - d * 100\<bar> \<le> d * 100 * u"
    by (simp add: u_def)
  have "d * 100 * u \<le> 200 * u" using d1 u0 by simp
  with e2 have e2': "\<bar>to_double (d * 100) - d * 100\<bar> \<le> 200 * u" by linarith
  have "q * u \<le> u" using q u0 by (simp add: mult_left_le_one_le)
  with e1 have e1': "\<bar>d * 100 - q * 100\<bar> \<le> 100 * u" by linarith
  have "\<bar>to_double (d * 100) - q * 100\<bar> \<le> 300 * u" using e1' e2' by linarith
  moreover have "300 * u \<le> 1 / 2 ^ 44" by (simp add: u_def)
  ultimately show ?thesis unfolding d_def by linarith
qed

lemma nearest_integer:
  fixes v p :: rat and c t :: nat
  assumes t: "0 < t" "t < 2 ^ 32"
    and p: "p = of_nat c / of_nat t * 100"
    and v: "\<bar>v - p\<bar> \<le> 1 / 2 ^ 44"
  shows "\<bar>of_int \<lfloor>v + 1 / 2\<rfloor> - p\<bar> \<le> 1 / 2"
proof -
  define r where "r = \<lfloor>v + 1 / 2\<rfloor>"
  define N :: int where "N = 2 * int t * r - 200 * int c"
  have r: "of_int r \<le> v + 1 / 2" "v + 1 / 2 < of_int r + 1" unfolding r_def by linarith+
  have tpos: "(0::rat) < of_nat t" using t by simp
  have N: "of_int N = 2 * of_nat t * (of_int r - p)"
    using tpos by (simp add: N_def p field_simps)
  have b: "\<bar>of_int r - p\<bar> \<le> 1 / 2 + 1 / 2 ^ 44" using r v by linarith
  have "(of_nat t :: rat) < 2 ^ 32" using t(2) by (metis of_nat_less_iff of_nat_numeral of_nat_power)
  then have small: "2 * (of_nat t :: rat) * (1 / 2 ^ 44) < 1" by simp
  have "\<bar>of_int N :: rat\<bar> = 2 * of_nat t * \<bar>of_int r - p\<bar>"
    unfolding N using tpos by (simp add: abs_mult)
  also have "\<dots> \<le> 2 * of_nat t * (1 / 2 + 1 / 2 ^ 44)"
    using b tpos by (simp add: mult_left_mono)
  also have "\<dots> < of_nat t + 1" using small by (simp add: algebra_simps)
  finally have "\<bar>of_int N :: rat\<bar> < of_int (int t + 1)" by simp
  then have "\<bar>N\<bar> < int t + 1" by (metis of_int_abs of_int_less_iff)
  then have "\<bar>N\<bar> \<le> int t" by simp
  then have "\<bar>of_int N :: rat\<bar> \<le> of_nat t" by (metis of_int_abs of_int_le_iff of_int_of_nat_eq)
  then have "2 * of_nat t * \<bar>of_int r - p\<bar> \<le> (of_nat t :: rat)"
    unfolding N using tpos by (simp add: abs_mult)
  then have "\<bar>of_int r - p\<bar> \<le> 1 / 2" using tpos by (simp add: field_simps)
  then show ?thesis unfolding r_def .
qed

lemma nearest_is_round:
  fixes p :: rat
  assumes "\<bar>of_int r - p\<bar> \<le> 1 / 2"
  shows "r = round p \<or> (frac p = 1 / 2 \<and> r = round p - 1)"
proof -
  define k where "k = \<lfloor>p + 1 / 2\<rfloor>"
  have k: "of_int k \<le> p + 1 / 2" "p + 1 / 2 < of_int k + 1" unfolding k_def by linarith+
  have rk: "round p = k" by (simp add: round_def k_def)
  from assms have a: "p - 1 / 2 \<le> of_int r" "of_int r \<le> p + 1 / 2" by linarith+
  have "of_int r < (of_int k :: rat) + 1" using a k by linarith
  then have "r < k + 1" by (metis of_int_1 of_int_add of_int_less_iff)
  moreover have "(of_int k :: rat) - 2 < of_int r" using a k by linarith
  then have "k - 2 < r" by (metis of_int_diff of_int_less_iff of_int_numeral)
  ultimately consider "r = k" | "r = k - 1" by linarith
  then show ?thesis
  proof cases
    case 1
    then show ?thesis by (simp add: rk)
  next
    case 2
    with a k have "p = of_int k - 1 / 2" by simp
    then have "p - 1 / 2 = of_int (k - 1)" by simp
    then have "p - 1 / 2 \<in> \<int>" by (simp only: Ints_of_int)
    then have "frac p = 1 / 2" by (intro frac_unique_iff [THEN iffD2]) simp
    with 2 show ?thesis by (simp add: rk)
  qed
qed


lemma double_pos_in_range:
  "2 ^ 52 \<le> x \<Longrightarrow> x < 2 ^ 53 \<Longrightarrow> double_pos x = of_int (round_ties_even x)"
  by (subst double_pos.simps) simp

lemma double_pos_scaled:
  "2 ^ 52 \<le> x * 2 ^ k \<Longrightarrow> x * 2 ^ k < 2 ^ 53 \<Longrightarrow>
     double_pos x = of_int (round_ties_even (x * 2 ^ k)) / 2 ^ k"
proof (induction k arbitrary: x)
  case 0
  then show ?case by (simp add: double_pos_in_range)
next
  case (Suc k)
  have pos: "0 < x"
  proof (rule ccontr)
    assume "\<not> 0 < x"
    then have "x * 2 ^ Suc k \<le> 0" by (simp add: mult_le_0_iff)
    with Suc.prems(1) show False by simp
  qed
  have "x * 2 ^ Suc k < 2 ^ 53" by (rule Suc.prems(2))
  moreover have "x * 2 \<le> x * 2 ^ Suc k" using pos by simp
  ultimately have lt: "x < 2 ^ 52" by simp
  have step: "double_pos x = double_pos (2 * x) / 2"
    using pos lt by (subst double_pos.simps) simp
  have "double_pos (2 * x) = of_int (round_ties_even (2 * x * 2 ^ k)) / 2 ^ k"
    using Suc.prems by (intro Suc.IH) (simp_all add: mult_ac)
  then show ?case by (simp add: step mult_ac)
qed

lemma round_ties_even_fraction:
  assumes "0 < b"
  shows "round_ties_even (of_int a / of_int b) =
     (if 2 * (a mod b) < b then a div b
      else if b < 2 * (a mod b) then a div b + 1
      else if even (a div b) then a div b else a div b + 1)"
proof -
  have fl: "\<lfloor>(of_int a :: rat) / of_int b\<rfloor> = a div b"
    by (rule floor_divide_of_int_eq)
  have bpos: "(0::rat) < of_int b" using assms by simp
  have "a = a div b * b + a mod b" by simp
  then have "(of_int a :: rat) = of_int (a div b * b + a mod b)" by (rule arg_cong)
  then have e: "(of_int a :: rat) = of_int (a div b) * of_int b + of_int (a mod b)"
    by (simp only: of_int_add of_int_mult)
  have "(of_int (a div b) * of_int b + of_int (a mod b)) / (of_int b :: rat)
      = of_int (a div b) + of_int (a mod b) / of_int b"
    using bpos by (simp add: add_divide_distrib)
  then have "(of_int a :: rat) / of_int b = of_int (a div b) + of_int (a mod b) / of_int b"
    by (simp only: e [symmetric])
  then have r: "(of_int a :: rat) / of_int b - of_int (a div b) = of_int (a mod b) / of_int b"
    by simp
  have lt: "(of_int (a mod b) :: rat) / of_int b < 1 / 2 \<longleftrightarrow> 2 * (a mod b) < b"
  proof -
    have "(of_int (a mod b) :: rat) / of_int b < 1 / 2 \<longleftrightarrow> (of_int (2 * (a mod b)) :: rat) < of_int b"
      using assms by (simp add: field_simps)
    then show ?thesis by (simp only: of_int_less_iff)
  qed
  have gt: "1 / 2 < (of_int (a mod b) :: rat) / of_int b \<longleftrightarrow> b < 2 * (a mod b)"
  proof -
    have "1 / 2 < (of_int (a mod b) :: rat) / of_int b \<longleftrightarrow> (of_int b :: rat) < of_int (2 * (a mod b))"
      using assms by (simp add: field_simps)
    then show ?thesis by (simp only: of_int_less_iff)
  qed
  show ?thesis
    unfolding round_ties_even_def Let_def fl r lt gt ..
qed

lemma to_double_fraction:
  assumes "0 < b" "2 ^ 52 * b \<le> a * 2 ^ k" "a * 2 ^ k < 2 ^ 53 * b"
  shows "to_double (of_int a / of_int b) =
     of_int (if 2 * (a * 2 ^ k mod b) < b then a * 2 ^ k div b
             else if b < 2 * (a * 2 ^ k mod b) then a * 2 ^ k div b + 1
             else if even (a * 2 ^ k div b) then a * 2 ^ k div b else a * 2 ^ k div b + 1) / 2 ^ k"
proof -
  let ?x = "(of_int a :: rat) / of_int b"
  have bpos: "(0::rat) < of_int b" using assms(1) by simp
  have sc: "?x * 2 ^ k = of_int (a * 2 ^ k) / of_int b" by simp
  have "(of_int (2 ^ 52 * b) :: rat) \<le> of_int (a * 2 ^ k)"
    using assms(2) by (simp only: of_int_le_iff)
  then have lo: "2 ^ 52 \<le> ?x * 2 ^ k"
    unfolding sc using bpos by (simp add: field_simps)
  have "(of_int (a * 2 ^ k) :: rat) < of_int (2 ^ 53 * b)"
    using assms(3) by (simp only: of_int_less_iff)
  then have hi: "?x * 2 ^ k < 2 ^ 53"
    unfolding sc using bpos by (simp add: field_simps)
  have "0 < ?x * 2 ^ k" using lo by (rule less_le_trans [rotated]) simp
  then have "0 < ?x" by (rule zero_less_mult_pos2) simp
  then have "to_double ?x = double_pos ?x" by (simp add: to_double_def)
  also have "\<dots> = of_int (round_ties_even (?x * 2 ^ k)) / 2 ^ k"
    using lo hi by (rule double_pos_scaled)
  also have "round_ties_even (?x * 2 ^ k) = round_ties_even (of_int (a * 2 ^ k) / of_int b)"
    by (simp only: sc)
  finally show ?thesis
    by (simp only: round_ties_even_fraction [OF assms(1)])
qed

lemma Math_round_fraction:
  assumes "0 < b"
  shows "Math_round (Num (of_int a / of_int b)) = Num (of_int ((2 * a + b) div (2 * b)))"
proof -
  have "(of_int a :: rat) / of_int b + 1 / 2 = of_int (2 * a + b) / of_int (2 * b)"
    using assms by (simp add: field_simps)
  then have "\<lfloor>(of_int a :: rat) / of_int b + 1 / 2\<rfloor> = (2 * a + b) div (2 * b)"
    by (simp only: floor_divide_of_int_eq)
  then show ?thesis by (simp only: Math_round.simps)
qed

lemma one_third: "Math_round (times_number (divide_lengths 1 3) 100) = Num 33"
proof -
  have a: "to_double (1 / 3) = 6004799503160661 / 2 ^ 54"
    using to_double_fraction [of 3 1 54] by simp
  have b: "to_double (6004799503160661 / 2 ^ 54 * 100) = 4691249611844266 / 2 ^ 47"
    using to_double_fraction [of "2 ^ 54" "6004799503160661 * 100" 47] by simp
  have c: "Math_round (Num (4691249611844266 / 2 ^ 47)) = Num 33"
    using Math_round_fraction [of "2 ^ 47" 4691249611844266] by simp
  have "divide_lengths 1 3 = Num (6004799503160661 / 2 ^ 54)"
    using a by (simp add: divide_lengths_def)
  then have "times_number (divide_lengths 1 3) 100 = Num (4691249611844266 / 2 ^ 47)"
    using b by simp
  then show ?thesis using c by simp
qed

lemma twenty_three_of_forty: "Math_round (times_number (divide_lengths 23 40) 100) = Num 57"
proof -
  have a: "to_double (23 / 40) = 2589569785738035 / 2 ^ 52"
    using to_double_fraction [of 40 23 53] by simp
  have b: "to_double (2589569785738035 / 2 ^ 52 * 100) = 8092405580431359 / 2 ^ 47"
    using to_double_fraction [of "2 ^ 52" "2589569785738035 * 100" 47] by simp
  have c: "Math_round (Num (8092405580431359 / 2 ^ 47)) = Num 57"
    using Math_round_fraction [of "2 ^ 47" 8092405580431359] by simp
  have "divide_lengths 23 40 = Num (2589569785738035 / 2 ^ 52)"
    using a by (simp add: divide_lengths_def)
  then have "times_number (divide_lengths 23 40) 100 = Num (8092405580431359 / 2 ^ 47)"
    using b by simp
  then show ?thesis using c by simp
qed

lemma five_of_eight: "Math_round (times_number (divide_lengths 5 8) 100) = Num 63"
proof -
  have a: "to_double (5 / 8) = 5 / 8"
    using to_double_fraction [of 8 5 53] by simp
  have b: "to_double (5 / 8 * 100) = 125 / 2"
    using to_double_fraction [of 8 "5 * 100" 47] by simp
  have c: "Math_round (Num (125 / 2)) = Num 63"
    using Math_round_fraction [of 2 125] by simp
  have "divide_lengths 5 8 = Num (5 / 8)"
    using a by (simp add: divide_lengths_def)
  then have "times_number (divide_lengths 5 8) 100 = Num (125 / 2)"
    using b by simp
  then show ?thesis using c by simp
qed

lemma double_product_23_40: "to_double (to_double (23 / 40) * 100) = 8092405580431359 / 2 ^ 47"
proof -
  have a: "to_double (23 / 40) = 2589569785738035 / 2 ^ 52"
    using to_double_fraction [of 40 23 53] by simp
  have b: "to_double (2589569785738035 / 2 ^ 52 * 100) = 8092405580431359 / 2 ^ 47"
    using to_double_fraction [of "2 ^ 52" "2589569785738035 * 100" 47] by simp
  show ?thesis unfolding a b ..
qed

lemma double_product_5_8: "to_double (to_double (5 / 8) * 100) = 125 / 2"
proof -
  have a: "to_double (5 / 8) = 5 / 8"
    using to_double_fraction [of 8 5 53] by simp
  have b: "to_double (5 / 8 * 100) = 125 / 2"
    using to_double_fraction [of 8 "5 * 100" 47] by simp
  show ?thesis unfolding a b ..
qed

text \<open>
  Three values to compare with any implementation of doubles: the double nearest to
  one tenth is \<open>3602879701896397 / 2 ^ 55\<close>, and the numbers 100 and 1 / 2 are doubles
  themselves.
\<close>

lemma to_double_one_tenth: "to_double (1 / 10) = 3602879701896397 / 2 ^ 55"
  using to_double_fraction [of 10 1 56] by simp

lemma to_double_hundred: "to_double 100 = 100"
  using to_double_fraction [of 1 100 46] by simp

lemma to_double_half: "to_double (1 / 2) = 1 / 2"
  using to_double_fraction [of 2 1 53] by simp

subsection \<open>The percentage\<close>

lemma length_completed_pending:
  "length (getCompletedTasks tm) + length (getPendingTasks tm) = length (tasks tm)"
  unfolding getCompletedTasks_def getPendingTasks_def
  by (induction "tasks tm" arbitrary: tm) (simp_all add: sum_length_filter_compl)

lemma getCompletionPercentage_nonempty:
  assumes "tasks tm \<noteq> []"
  shows "getCompletionPercentage tm = Num (of_int \<lfloor>double_percentage tm + 1 / 2\<rfloor>)"
  using assms
  by (simp add: getCompletionPercentage_def divide_lengths_def double_percentage_def
      getAllTasks_def)

lemma tie_rounds_down:
  fixes p v :: rat
  assumes "frac p = 1 / 2" "v < p"
  shows "\<lfloor>v + 1 / 2\<rfloor> < round p"
proof -
  have "p - of_int \<lfloor>p\<rfloor> = 1 / 2" using assms(1) by (simp add: frac_def)
  then have e: "p + 1 / 2 = of_int (\<lfloor>p\<rfloor> + 1)" by simp
  then have "\<lfloor>p + 1 / 2\<rfloor> = \<lfloor>p\<rfloor> + 1" by (simp only: floor_of_int)
  then have r: "round p = \<lfloor>p\<rfloor> + 1" by (simp add: round_def)
  have "v + 1 / 2 < of_int (\<lfloor>p\<rfloor> + 1)" using assms(2) e by linarith
  then have "\<lfloor>v + 1 / 2\<rfloor> < \<lfloor>p\<rfloor> + 1" by (simp only: floor_less_iff)
  with r show ?thesis by simp
qed

lemma above_rounds_up:
  fixes p v :: rat
  assumes "p \<le> v"
  shows "round p \<le> \<lfloor>v + 1 / 2\<rfloor>"
proof -
  have "p + 1 / 2 \<le> v + 1 / 2" using assms by simp
  then have "\<lfloor>p + 1 / 2\<rfloor> \<le> \<lfloor>v + 1 / 2\<rfloor>" by (rule floor_mono)
  then show ?thesis by (simp add: round_def)
qed

text \<open>
  C4. \<^verbatim>\<open>getCompletionPercentage\<close> returns 0 for the empty collection (nothing is
  divided then), and in every case a whole number, never \<open>NaN\<close>. For a non-empty
  collection the result is \<^verbatim>\<open>Math.round\<close> of the double product of the double quotient:
  the greatest whole number not above that product plus one half, so a product halfway
  between two whole numbers goes up. For an array (fewer than \<open>2 ^ 32\<close> tasks) this is
  a whole number at most one half away from completed / total \<times> 100, and it is that
  percentage rounded half up in every case but one: when the percentage lies exactly
  halfway between two whole numbers and the double product falls below it, the result
  is the lower of the two. With 3 tasks of which 1 is completed the result is 33, and
  \<^verbatim>\<open>getRemainingTasksCount\<close> is 2.
\<close>

theorem completion_percentage:
  "(getAllTasks tm = [] \<longrightarrow> getCompletionPercentage tm = Num 0)
   \<and> (\<exists>r::int. getCompletionPercentage tm = Num (of_int r))
   \<and> (getAllTasks tm \<noteq> [] \<longrightarrow>
        getCompletionPercentage tm
          = Num (of_int \<lfloor>to_double (to_double (of_nat (length (getCompletedTasks tm))
                                                / of_nat (length (getAllTasks tm))) * 100)
                         + 1 / 2\<rfloor>))
   \<and> (getAllTasks tm \<noteq> [] \<and> length (getAllTasks tm) < 2 ^ 32 \<longrightarrow>
        (\<exists>r::int. getCompletionPercentage tm = Num (of_int r)
           \<and> r = \<lfloor>double_percentage tm + 1 / 2\<rfloor>
           \<and> \<bar>of_int r - exact_percentage tm\<bar> \<le> 1 / 2
           \<and> (r = round (exact_percentage tm)
                \<or> frac (exact_percentage tm) = 1 / 2 \<and> r = round (exact_percentage tm) - 1)
           \<and> (frac (exact_percentage tm) = 1 / 2 \<and> double_percentage tm < exact_percentage tm
                \<longrightarrow> r = round (exact_percentage tm) - 1)
           \<and> (\<not> (frac (exact_percentage tm) = 1 / 2
                   \<and> double_percentage tm < exact_percentage tm)
                \<longrightarrow> r = round (exact_percentage tm))))
   \<and> (length (getAllTasks tm) = 3 \<and> length (getCompletedTasks tm) = 1 \<longrightarrow>
        getCompletionPercentage tm = Num 33 \<and> getRemainingTasksCount tm = 2)"
proof -
  let ?c = "length (getCompletedTasks tm)"
  let ?t = "length (tasks tm)"
  let ?v = "double_percentage tm"
  let ?p = "exact_percentage tm"
  have empty: "getAllTasks tm = [] \<longrightarrow> getCompletionPercentage tm = Num 0"
    by (simp add: getAllTasks_def getCompletionPercentage_def)
  have whole: "\<exists>r::int. getCompletionPercentage tm = Num (of_int r)"
  proof (cases "tasks tm = []")
    case True
    then have "getCompletionPercentage tm = Num (of_int 0)"
      by (simp add: getCompletionPercentage_def)
    then show ?thesis ..
  next
    case False
    then show ?thesis by (auto simp: getCompletionPercentage_nonempty)
  qed
  have equation: "getAllTasks tm \<noteq> [] \<longrightarrow>
        getCompletionPercentage tm
          = Num (of_int \<lfloor>to_double (to_double (of_nat (length (getCompletedTasks tm))
                                                / of_nat (length (getAllTasks tm))) * 100)
                         + 1 / 2\<rfloor>)"
    using getCompletionPercentage_nonempty [of tm]
    by (simp add: getAllTasks_def double_percentage_def)
  have near: "getAllTasks tm \<noteq> [] \<and> length (getAllTasks tm) < 2 ^ 32 \<longrightarrow>
        (\<exists>r::int. getCompletionPercentage tm = Num (of_int r)
           \<and> r = \<lfloor>?v + 1 / 2\<rfloor>
           \<and> \<bar>of_int r - ?p\<bar> \<le> 1 / 2
           \<and> (r = round ?p \<or> frac ?p = 1 / 2 \<and> r = round ?p - 1)
           \<and> (frac ?p = 1 / 2 \<and> ?v < ?p \<longrightarrow> r = round ?p - 1)
           \<and> (\<not> (frac ?p = 1 / 2 \<and> ?v < ?p) \<longrightarrow> r = round ?p))"
  proof
    assume a: "getAllTasks tm \<noteq> [] \<and> length (getAllTasks tm) < 2 ^ 32"
    then have ne: "tasks tm \<noteq> []" and t: "0 < ?t" "?t < 2 ^ 32"
      by (simp_all add: getAllTasks_def)
    have "?c \<le> ?t" by (simp add: getCompletedTasks_def)
    then have q: "(0::rat) \<le> of_nat ?c / of_nat ?t" "(of_nat ?c :: rat) / of_nat ?t \<le> 1"
      using t(1) by simp_all
    have p: "?p = of_nat ?c / of_nat ?t * 100"
      by (simp add: exact_percentage_def getAllTasks_def)
    have v: "?v = to_double (to_double (of_nat ?c / of_nat ?t) * 100)"
      by (simp add: double_percentage_def getAllTasks_def)
    have "\<bar>?v - ?p\<bar> \<le> 1 / 2 ^ 44"
      unfolding p v using q by (rule percentage_error)
    with t p have n: "\<bar>of_int \<lfloor>?v + 1 / 2\<rfloor> - ?p\<bar> \<le> 1 / 2"
      by (rule nearest_integer)
    define r where "r = \<lfloor>?v + 1 / 2\<rfloor>"
    have g: "getCompletionPercentage tm = Num (of_int r)"
      unfolding r_def using ne by (rule getCompletionPercentage_nonempty)
    have n': "\<bar>of_int r - ?p\<bar> \<le> 1 / 2" using n by (simp only: r_def)
    have d: "r = round ?p \<or> frac ?p = 1 / 2 \<and> r = round ?p - 1"
      using n' by (rule nearest_is_round)
    have down: "frac ?p = 1 / 2 \<and> ?v < ?p \<longrightarrow> r = round ?p - 1"
    proof
      assume "frac ?p = 1 / 2 \<and> ?v < ?p"
      then have "r < round ?p" unfolding r_def by (intro tie_rounds_down) simp_all
      with d show "r = round ?p - 1" by linarith
    qed
    have up: "\<not> (frac ?p = 1 / 2 \<and> ?v < ?p) \<longrightarrow> r = round ?p"
    proof
      assume h: "\<not> (frac ?p = 1 / 2 \<and> ?v < ?p)"
      show "r = round ?p"
      proof (cases "frac ?p = 1 / 2")
        case True
        with h have "?p \<le> ?v" by simp
        then have "round ?p \<le> r" unfolding r_def by (rule above_rounds_up)
        with d show ?thesis by linarith
      next
        case False
        with d show ?thesis by simp
      qed
    qed
    from g n' d down up
    show "\<exists>r::int. getCompletionPercentage tm = Num (of_int r)
           \<and> r = \<lfloor>?v + 1 / 2\<rfloor>
           \<and> \<bar>of_int r - ?p\<bar> \<le> 1 / 2
           \<and> (r = round ?p \<or> frac ?p = 1 / 2 \<and> r = round ?p - 1)
           \<and> (frac ?p = 1 / 2 \<and> ?v < ?p \<longrightarrow> r = round ?p - 1)
           \<and> (\<not> (frac ?p = 1 / 2 \<and> ?v < ?p) \<longrightarrow> r = round ?p)"
      unfolding r_def by blast
  qed
  have three: "length (getAllTasks tm) = 3 \<and> length (getCompletedTasks tm) = 1 \<longrightarrow>
        getCompletionPercentage tm = Num 33 \<and> getRemainingTasksCount tm = 2"
  proof
    assume a: "length (getAllTasks tm) = 3 \<and> length (getCompletedTasks tm) = 1"
    then have l: "?t = 3" "?c = 1" by (simp_all add: getAllTasks_def)
    have "getCompletionPercentage tm = Math_round (times_number (divide_lengths 1 3) 100)"
      by (simp add: getCompletionPercentage_def l)
    then have pct: "getCompletionPercentage tm = Num 33" by (simp only: one_third)
    have "getRemainingTasksCount tm = 2"
      using length_completed_pending [of tm] l by (simp add: getRemainingTasksCount_def)
    with pct show "getCompletionPercentage tm = Num 33 \<and> getRemainingTasksCount tm = 2" ..
  qed
  from empty whole equation near three show ?thesis by blast
qed

text \<open>
  Instances: the empty collection; 1 of 3 tasks completed (33); 5 of 8 completed,
  where the percentage 62.5 is a double and the tie goes up (63); 23 of 40 completed,
  where the percentage 57.5 is a tie and the double product lies below it (57).
\<close>

theorem completion_percentage_witness:
  "getAllTasks \<lparr>tasks = [], saved = []\<rparr> = []
   \<and> getCompletionPercentage \<lparr>tasks = [], saved = []\<rparr> = Num 0
   \<and> getAllTasks \<lparr>tasks = sample_tasks 1 1 True @ sample_tasks 2 3 False, saved = []\<rparr> \<noteq> []
   \<and> length (getAllTasks \<lparr>tasks = sample_tasks 1 1 True @ sample_tasks 2 3 False, saved = []\<rparr>) < 2 ^ 32
   \<and> length (getAllTasks \<lparr>tasks = sample_tasks 1 1 True @ sample_tasks 2 3 False, saved = []\<rparr>) = 3
   \<and> length (getCompletedTasks \<lparr>tasks = sample_tasks 1 1 True @ sample_tasks 2 3 False, saved = []\<rparr>) = 1
   \<and> getCompletionPercentage \<lparr>tasks = sample_tasks 1 1 True @ sample_tasks 2 3 False, saved = []\<rparr>
       = Num 33
   \<and> getRemainingTasksCount \<lparr>tasks = sample_tasks 1 1 True @ sample_tasks 2 3 False, saved = []\<rparr> = 2
   \<and> \<bar>33 - exact_percentage \<lparr>tasks = sample_tasks 1 1 True @ sample_tasks 2 3 False, saved = []\<rparr>\<bar>
       \<le> 1 / 2
   \<and> getAllTasks \<lparr>tasks = sample_tasks 1 5 True @ sample_tasks 6 8 False, saved = []\<rparr> \<noteq> []
   \<and> length (getAllTasks \<lparr>tasks = sample_tasks 1 5 True @ sample_tasks 6 8 False, saved = []\<rparr>) < 2 ^ 32
   \<and> \<not> (frac (exact_percentage \<lparr>tasks = sample_tasks 1 5 True @ sample_tasks 6 8 False, saved = []\<rparr>)
            = 1 / 2
          \<and> double_percentage \<lparr>tasks = sample_tasks 1 5 True @ sample_tasks 6 8 False, saved = []\<rparr>
            < exact_percentage \<lparr>tasks = sample_tasks 1 5 True @ sample_tasks 6 8 False, saved = []\<rparr>)
   \<and> getCompletionPercentage \<lparr>tasks = sample_tasks 1 5 True @ sample_tasks 6 8 False, saved = []\<rparr>
       = Num 63
   \<and> round (exact_percentage \<lparr>tasks = sample_tasks 1 5 True @ sample_tasks 6 8 False, saved = []\<rparr>)
       = 63
   \<and> getAllTasks \<lparr>tasks = sample_tasks 1 23 True @ sample_tasks 24 40 False, saved = []\<rparr> \<noteq> []
   \<and> length (getAllTasks \<lparr>tasks = sample_tasks 1 23 True @ sample_tasks 24 40 False, saved = []\<rparr>)
       < 2 ^ 32
   \<and> frac (exact_percentage \<lparr>tasks = sample_tasks 1 23 True @ sample_tasks 24 40 False, saved = []\<rparr>)
       = 1 / 2
   \<and> double_percentage \<lparr>tasks = sample_tasks 1 23 True @ sample_tasks 24 40 False, saved = []\<rparr>
       < exact_percentage \<lparr>tasks = sample_tasks 1 23 True @ sample_tasks 24 40 False, saved = []\<rparr>
   \<and> getCompletionPercentage \<lparr>tasks = sample_tasks 1 23 True @ sample_tasks 24 40 False, saved = []\<rparr>
       = Num (of_int (round (exact_percentage
           \<lparr>tasks = sample_tasks 1 23 True @ sample_tasks 24 40 False, saved = []\<rparr>) - 1))"
proof -
  let ?tm0 = "\<lparr>tasks = [], saved = []\<rparr>"
  let ?tm3 = "\<lparr>tasks = sample_tasks 1 1 True @ sample_tasks 2 3 False, saved = []\<rparr>"
  let ?tm8 = "\<lparr>tasks = sample_tasks 1 5 True @ sample_tasks 6 8 False, saved = []\<rparr>"
  let ?tm40 = "\<lparr>tasks = sample_tasks 1 23 True @ sample_tasks 24 40 False, saved = []\<rparr>"
  have l3: "length (getAllTasks ?tm3) = 3" "length (getCompletedTasks ?tm3) = 1"
    by (simp_all add: getAllTasks_def getCompletedTasks_def sample_tasks_def sample_task_def
        filter_map o_def)
  have e3: "exact_percentage ?tm3 = 100 / 3"
    by (simp add: exact_percentage_def l3)
  have ne3: "getAllTasks ?tm3 \<noteq> []"
    using l3(1) by (rule_tac notI) simp
  have l8: "length (getAllTasks ?tm8) = 8" "length (getCompletedTasks ?tm8) = 5"
    by (simp_all add: getAllTasks_def getCompletedTasks_def sample_tasks_def sample_task_def
        filter_map o_def)
  have e8: "exact_percentage ?tm8 = 125 / 2"
    by (simp add: exact_percentage_def l8)
  have v8: "double_percentage ?tm8 = 125 / 2"
    using double_product_5_8 by (simp add: double_percentage_def l8)
  have ne8: "getAllTasks ?tm8 \<noteq> []"
    using l8(1) by (rule_tac notI) simp
  have r8: "round (125 / 2 :: rat) = 63" by (simp add: round_def)
  have l40: "length (getAllTasks ?tm40) = 40" "length (getCompletedTasks ?tm40) = 23"
    by (simp_all add: getAllTasks_def getCompletedTasks_def sample_tasks_def sample_task_def
        filter_map o_def)
  have e40: "exact_percentage ?tm40 = 115 / 2"
    by (simp add: exact_percentage_def l40)
  have v40: "double_percentage ?tm40 = 8092405580431359 / 2 ^ 47"
    using double_product_23_40 by (simp add: double_percentage_def l40)
  have ne40: "getAllTasks ?tm40 \<noteq> []"
    using l40(1) by (rule_tac notI) simp
  have "(115 / 2 :: rat) - 1 / 2 = of_int 57" by simp
  then have "(115 / 2 :: rat) - 1 / 2 \<in> \<int>" by (simp only: Ints_of_int)
  then have f40: "frac (115 / 2 :: rat) = 1 / 2"
    by (intro frac_unique_iff [THEN iffD2]) simp
  have lt40: "double_percentage ?tm40 < exact_percentage ?tm40"
    unfolding v40 e40 by simp
  have part0: "getAllTasks ?tm0 = [] \<and> getCompletionPercentage ?tm0 = Num 0"
    using completion_percentage [of ?tm0] by (simp add: getAllTasks_def)
  have part3: "getCompletionPercentage ?tm3 = Num 33 \<and> getRemainingTasksCount ?tm3 = 2"
    using completion_percentage [of ?tm3] l3 by simp
  have b8: "length (getAllTasks ?tm8) < 2 ^ 32" by (simp only: l8) simp
  have n8: "\<not> (frac (exact_percentage ?tm8) = 1 / 2
      \<and> double_percentage ?tm8 < exact_percentage ?tm8)"
    by (simp only: e8 v8) simp
  from completion_percentage [of ?tm8]
  have "getAllTasks ?tm8 \<noteq> [] \<and> length (getAllTasks ?tm8) < 2 ^ 32 \<longrightarrow>
      (\<exists>r::int. getCompletionPercentage ?tm8 = Num (of_int r)
        \<and> (\<not> (frac (exact_percentage ?tm8) = 1 / 2
                \<and> double_percentage ?tm8 < exact_percentage ?tm8)
             \<longrightarrow> r = round (exact_percentage ?tm8)))"
    by blast
  with ne8 b8 n8 have "getCompletionPercentage ?tm8
      = Num (of_int (round (exact_percentage ?tm8)))"
    by blast
  then have part8: "getCompletionPercentage ?tm8 = Num 63"
    by (simp only: e8 r8) simp
  have b40: "length (getAllTasks ?tm40) < 2 ^ 32" by (simp only: l40) simp
  have fe40: "frac (exact_percentage ?tm40) = 1 / 2" by (simp only: e40 f40)
  from completion_percentage [of ?tm40]
  have "getAllTasks ?tm40 \<noteq> [] \<and> length (getAllTasks ?tm40) < 2 ^ 32 \<longrightarrow>
      (\<exists>r::int. getCompletionPercentage ?tm40 = Num (of_int r)
        \<and> (frac (exact_percentage ?tm40) = 1 / 2
              \<and> double_percentage ?tm40 < exact_percentage ?tm40
             \<longrightarrow> r = round (exact_percentage ?tm40) - 1))"
    by blast
  with ne40 b40 fe40 lt40 have part40: "getCompletionPercentage ?tm40
      = Num (of_int (round (exact_percentage ?tm40) - 1))"
    by blast
  have r8': "round (exact_percentage ?tm8) = 63" by (simp only: e8 r8)
  have b3: "length (getAllTasks ?tm3) < 2 ^ 32" by (simp only: l3) simp
  have d3: "\<bar>33 - exact_percentage ?tm3\<bar> \<le> 1 / 2" by (simp add: e3)
  from part0 ne3 b3 l3 part3 d3 ne8 b8 n8 part8 r8' ne40 b40 fe40 lt40 part40
  show ?thesis by blast
qed

text \<open>
  The result is not always the percentage rounded half up. With 40 tasks of which 23
  are completed the percentage is 57.5; the double nearest to 23 / 40 lies below it, the
  product with 100 is the double just below 57.5, and \<^verbatim>\<open>Math.round\<close> gives 57, not 58.
\<close>

theorem completion_percentage_counterexample:
  "getCompletionPercentage \<lparr>tasks = sample_tasks 1 23 True @ sample_tasks 24 40 False, saved = []\<rparr>
     = Num 57
   \<and> round (exact_percentage
       \<lparr>tasks = sample_tasks 1 23 True @ sample_tasks 24 40 False, saved = []\<rparr>) = 58
   \<and> getCompletionPercentage \<lparr>tasks = sample_tasks 1 23 True @ sample_tasks 24 40 False, saved = []\<rparr>
     \<noteq> Num (of_int (round (exact_percentage
           \<lparr>tasks = sample_tasks 1 23 True @ sample_tasks 24 40 False, saved = []\<rparr>)))"
proof -
  let ?tm = "\<lparr>tasks = sample_tasks 1 23 True @ sample_tasks 24 40 False, saved = []\<rparr>"
  have l: "length (tasks ?tm) = 40" "length (getCompletedTasks ?tm) = 23"
    by (simp_all add: getCompletedTasks_def sample_tasks_def sample_task_def filter_map o_def)
  have "getCompletionPercentage ?tm = Math_round (times_number (divide_lengths 23 40) 100)"
    by (simp only: getCompletionPercentage_def l) simp
  then have pct: "getCompletionPercentage ?tm = Num 57"
    by (simp only: twenty_three_of_forty)
  have e: "exact_percentage ?tm = 115 / 2"
    using l by (simp add: exact_percentage_def getAllTasks_def)
  have "round (115 / 2 :: rat) = 58"
    by (simp add: round_def)
  then have r: "round (exact_percentage ?tm) = 58"
    by (simp only: e)
  from pct r show ?thesis by simp
qed

section \<open>Properties of the notification history\<close>

lemma notifications_saveNotifications [simp]:
  "notifications (saveNotifications nm) = notifications nm"
  by (simp add: saveNotifications_def)

lemma notifications_updateNotificationBadge [simp]:
  "notifications (updateNotificationBadge nm) = notifications nm"
  by (simp add: updateNotificationBadge_def Let_def)

lemma saved_updateNotificationBadge [simp]:
  "saved_notifications (updateNotificationBadge nm) = saved_notifications nm"
  by (simp add: updateNotificationBadge_def Let_def)

lemma getUnreadCount_updateNotificationBadge [simp]:
  "getUnreadCount (updateNotificationBadge nm) = getUnreadCount nm"
  by (simp add: getUnreadCount_def)

lemma getUnreadCount_saveNotifications [simp]:
  "getUnreadCount (saveNotifications nm) = getUnreadCount nm"
  by (simp add: getUnreadCount_def)

lemma notifications_addNotification:
  "notifications (addNotification now stamp msg ty nm) =
     take 50 (\<lparr> notification_id = now, message = msg,
                 type = (case ty of None \<Rightarrow> ''info'' | Some t \<Rightarrow> t),
                 timestamp = stamp, read = False \<rparr> # notifications nm)"
  by (simp add: addNotification_def Let_def)

subsection \<open>Recording a notification\<close>

text \<open>
  C1. For every history and every call of \<^verbatim>\<open>addNotification\<close>, the new history has at
  most 50 entries; its first entry is the new one (unread, with the clock reading as id
  and \<open>info\<close> as type when none is given), followed by the first 49 entries of the old
  history in their order. So a history of 50 entries loses its last, oldest, entry and
  keeps the others, and a shorter one is kept whole. The new history is what the call
  writes to localStorage.
\<close>

theorem addNotification_bounded:
  "length (getAllNotifications (addNotification now stamp msg ty nm)) \<le> 50
   \<and> getAllNotifications (addNotification now stamp msg ty nm)
       = \<lparr> notification_id = now, message = msg,
           type = (case ty of None \<Rightarrow> ''info'' | Some t \<Rightarrow> t),
           timestamp = stamp, read = False \<rparr> # take 49 (getAllNotifications nm)
   \<and> (length (getAllNotifications nm) = 50 \<longrightarrow>
        tl (getAllNotifications (addNotification now stamp msg ty nm))
          = butlast (getAllNotifications nm))
   \<and> (length (getAllNotifications nm) < 50 \<longrightarrow>
        tl (getAllNotifications (addNotification now stamp msg ty nm))
          = getAllNotifications nm)
   \<and> saved_notifications (addNotification now stamp msg ty nm)
       = getAllNotifications (addNotification now stamp msg ty nm) # saved_notifications nm"
proof -
  have eq: "take 50 (n # h) = n # take 49 h" for n :: notification and h
    by (simp add: take_Cons')
  have saved: "saved_notifications (addNotification now stamp msg ty nm)
      = notifications (addNotification now stamp msg ty nm) # saved_notifications nm"
    by (simp add: addNotification_def Let_def saveNotifications_def)
  show ?thesis
    unfolding getAllNotifications_def saved notifications_addNotification eq
    by (simp add: butlast_conv_take)
qed

theorem addNotification_bounded_witness:
  "length (getAllNotifications
      \<lparr>notifications = replicate 50 (sample_notification 1 True),
        saved_notifications = [], badges = []\<rparr>) = 50
   \<and> tl (getAllNotifications (addNotification 2 ''2024-01-02T08:00:00.000Z'' ''Task deleted'' None
        \<lparr>notifications = replicate 50 (sample_notification 1 True),
          saved_notifications = [], badges = []\<rparr>))
       = replicate 49 (sample_notification 1 True)
   \<and> length (getAllNotifications
        \<lparr>notifications = [sample_notification 1 True], saved_notifications = [], badges = []\<rparr>) < 50
   \<and> tl (getAllNotifications (addNotification 2 ''2024-01-02T08:00:00.000Z'' ''Task deleted'' None
        \<lparr>notifications = [sample_notification 1 True], saved_notifications = [], badges = []\<rparr>))
       = [sample_notification 1 True]"
  using addNotification_bounded [of 2 "''2024-01-02T08:00:00.000Z''" "''Task deleted''" None
      "\<lparr>notifications = replicate 50 (sample_notification 1 True),
        saved_notifications = [], badges = []\<rparr>"]
    addNotification_bounded [of 2 "''2024-01-02T08:00:00.000Z''" "''Task deleted''" None
      "\<lparr>notifications = [sample_notification 1 True], saved_notifications = [], badges = []\<rparr>"]
  by (simp add: getAllNotifications_def butlast_conv_take)

subsection \<open>Marking every notification as read\<close>

text \<open>
  C8. \<^verbatim>\<open>markAllAsRead\<close> keeps every entry of the history, in its place, and changes
  nothing of an entry but its \<open>read\<close> flag, which it sets. So afterwards no entry is
  unread: \<^verbatim>\<open>getUnreadCount\<close> is 0 and every entry has its flag set. The call writes the
  new history to localStorage and sets every badge to 0, hidden. A second call changes
  nothing: the history and the badges stay as the first call left them, and the history
  it writes to localStorage is the one the first call wrote.
\<close>

theorem markAllAsRead_idempotent:
  "getAllNotifications (markAllAsRead nm)
     = map (\<lambda>n. n\<lparr>read := True\<rparr>) (getAllNotifications nm)
   \<and> length (getAllNotifications (markAllAsRead nm)) = length (getAllNotifications nm)
   \<and> getUnreadCount (markAllAsRead nm) = 0
   \<and> (\<forall>n \<in> set (getAllNotifications (markAllAsRead nm)). read n)
   \<and> saved_notifications (markAllAsRead nm)
       = getAllNotifications (markAllAsRead nm) # saved_notifications nm
   \<and> badges (markAllAsRead nm)
       = map (\<lambda>badge. badge\<lparr>textContent := 0, display := ''none''\<rparr>) (badges nm)
   \<and> getAllNotifications (markAllAsRead (markAllAsRead nm)) = getAllNotifications (markAllAsRead nm)
   \<and> badges (markAllAsRead (markAllAsRead nm)) = badges (markAllAsRead nm)
   \<and> saved_notifications (markAllAsRead (markAllAsRead nm))
       = getAllNotifications (markAllAsRead nm) # saved_notifications (markAllAsRead nm)
   \<and> hd (saved_notifications (markAllAsRead nm)) = getAllNotifications (markAllAsRead nm)"
proof -
  have ns: "notifications (markAllAsRead m) = map (\<lambda>n. n\<lparr>read := True\<rparr>) (notifications m)" for m
    by (simp add: markAllAsRead_def)
  have unread: "getUnreadCount (markAllAsRead m) = 0" for m
    by (simp add: getUnreadCount_def ns filter_map o_def)
  have again: "notifications (markAllAsRead (markAllAsRead nm)) = notifications (markAllAsRead nm)"
    by (simp add: ns o_def)
  have sv: "saved_notifications (markAllAsRead m)
      = map (\<lambda>n. n\<lparr>read := True\<rparr>) (notifications m) # saved_notifications m" for m
    by (simp add: markAllAsRead_def saveNotifications_def)
  have bs: "badges (markAllAsRead m) =
      map (\<lambda>badge. badge\<lparr>textContent := 0, display := ''none''\<rparr>) (badges m)" for m
  proof -
    have "getUnreadCount (saveNotifications
        (m\<lparr>notifications := map (\<lambda>n. n\<lparr>read := True\<rparr>) (notifications m)\<rparr>)) = 0"
      by (simp add: getUnreadCount_def filter_map o_def)
    then show ?thesis
      by (simp add: markAllAsRead_def updateNotificationBadge_def Let_def saveNotifications_def)
  qed
  have bs2: "badges (markAllAsRead (markAllAsRead nm)) = badges (markAllAsRead nm)"
    by (simp add: bs o_def)
  show ?thesis
    using unread [of nm] again bs2 bs [of nm]
    by (simp add: getAllNotifications_def ns sv o_def)
qed

theorem markAllAsRead_idempotent_witness:
  "sample_notification 1 True \<in> set (getAllNotifications (markAllAsRead
      \<lparr>notifications = [sample_notification 1 False, sample_notification 2 True],
        saved_notifications = [], badges = [\<lparr>textContent = 1, display = ''flex''\<rparr>]\<rparr>))
   \<and> read (sample_notification 1 True)
   \<and> getUnreadCount (markAllAsRead
      \<lparr>notifications = [sample_notification 1 False, sample_notification 2 True],
        saved_notifications = [], badges = [\<lparr>textContent = 1, display = ''flex''\<rparr>]\<rparr>) = 0
   \<and> getAllNotifications (markAllAsRead
      \<lparr>notifications = [sample_notification 1 False, sample_notification 2 True],
        saved_notifications = [], badges = [\<lparr>textContent = 1, display = ''flex''\<rparr>]\<rparr>)
       = [sample_notification 1 True, sample_notification 2 True]"
  using markAllAsRead_idempotent [of
      "\<lparr>notifications = [sample_notification 1 False, sample_notification 2 True],
        saved_notifications = [], badges = [\<lparr>textContent = 1, display = ''flex''\<rparr>]\<rparr>"]
  by (simp add: getAllNotifications_def markAllAsRead_def sample_notification_def)

section \<open>Properties of the settings\<close>

text \<open>
  C9. When localStorage holds no settings record, the constructor succeeds and
  \<^verbatim>\<open>getAllSettings\<close> returns the default record: the ten keys \<open>theme\<close>, \<open>fontSize\<close>,
  \<open>pushNotifications\<close>, \<open>emailReminders\<close>, \<open>soundEffects\<close>, \<open>showCompletedTasks\<close>, \<open>sortBy\<close>,
  \<open>recurringTasks\<close>, \<open>twoFactor\<close> and \<open>darkMode\<close> with the values below, and no other key.
\<close>

theorem default_settings_when_absent:
  "\<exists>sm. new_SettingsManager JSON_parse None = Inr sm
     \<and> getAllSettings sm =
         [(''theme'', Text ''light''),
          (''fontSize'', Text ''medium''),
          (''pushNotifications'', Flag True),
          (''emailReminders'', Flag False),
          (''soundEffects'', Flag True),
          (''showCompletedTasks'', Flag True),
          (''sortBy'', Text ''dueDate''),
          (''recurringTasks'', Flag True),
          (''twoFactor'', Flag False),
          (''darkMode'', Flag False)]
     \<and> length (getAllSettings sm) = 10
     \<and> distinct (map fst (getAllSettings sm))
     \<and> fst ` set (getAllSettings sm) =
         {''theme'', ''fontSize'', ''pushNotifications'', ''emailReminders'', ''soundEffects'',
          ''showCompletedTasks'', ''sortBy'', ''recurringTasks'', ''twoFactor'', ''darkMode''}
     \<and> getSetting ''theme'' sm = Some (Text ''light'')
     \<and> getSetting ''darkMode'' sm = Some (Flag False)"
  by (simp add: new_SettingsManager_def loadSettings_def getAllSettings_def getSetting_def
      getDefaultSettings_def)

end
